theory Spec2Isabelle
  imports Complex_Main
begin

section \<open>Go data as the reflective walk sees it\<close>

text \<open>
  The package walks a configuration struct through Go's \<open>reflect\<close> package. The embedding
  keeps what the walk inspects: the kind of a type, its name, its element type, the fields
  of a struct type with their tags, and the value stored in each field.
\<close>

datatype kind =
    KBool | KInt | KInt8 | KInt16 | KInt32 | KInt64
  | KUint | KUint8 | KUint16 | KUint32 | KUint64 | KUintptr
  | KFloat32 | KFloat64 | KComplex64 | KComplex128
  | KArray | KChan | KFunc | KInterface | KMap | KPtr | KSlice | KString | KStruct
  | KUnsafePointer

text \<open>
  A type carries its name (\<open>Type.Name()\<close>, empty for an unnamed type). A struct field
  (\<open>reflect.StructField\<close>) has a name, a type, its tag as key/value pairs and whether it is
  exported. Struct types are finite trees here: a type that mentions itself through a
  pointer is outside the embedding.
\<close>

datatype gotype =
    TPrim string kind
  | TPtr string gotype
  | TSlice string gotype
  | TStruct string "sfield list"
and sfield = SField string gotype "(string \<times> string) list" bool

datatype gval =
    VBool bool
  | VInt int
  | VStr string
  | VFloat bool rat
  | VOther string
  | VNil
  | VPtr gval
  | VSlice "gval list"
  | VStruct "gval list"

text \<open>
  Pointers own their pointee (\<open>VPtr v\<close>): two fields never share one pointee, and no
  pointer chain is cyclic. \<open>VFloat neg m\<close> is the finite float with sign bit \<open>neg\<close>
  and magnitude \<open>m\<close>. \<open>VOther\<close> stands for a value the walk never looks into (a
  \<open>url.URL\<close>, an infinity, a complex number), named by a canonical rendering.
\<close>

fun fname :: "sfield \<Rightarrow> string" where
  "fname (SField n t tg ex) = n"

fun ftype :: "sfield \<Rightarrow> gotype" where
  "ftype (SField n t tg ex) = t"

fun ftag :: "sfield \<Rightarrow> (string \<times> string) list" where
  "ftag (SField n t tg ex) = tg"

fun exported :: "sfield \<Rightarrow> bool" where
  "exported (SField n t tg ex) = ex"

fun kind_of :: "gotype \<Rightarrow> kind" where
  "kind_of (TPrim n k) = k"
| "kind_of (TPtr n t) = KPtr"
| "kind_of (TSlice n t) = KSlice"
| "kind_of (TStruct n fs) = KStruct"

fun tname :: "gotype \<Rightarrow> string" where
  "tname (TPrim n k) = n"
| "tname (TPtr n t) = n"
| "tname (TSlice n t) = n"
| "tname (TStruct n fs) = n"

text \<open>\<open>Type.Elem()\<close> panics on a type that is neither pointer nor slice; the callers
  below test the kind first, so the last two equations are never reached.\<close>

fun elem :: "gotype \<Rightarrow> gotype" where
  "elem (TPtr n t) = t"
| "elem (TSlice n t) = t"
| "elem (TPrim n k) = TPrim n k"
| "elem (TStruct n fs) = TStruct n fs"

text \<open>\<open>StructTag.Get\<close>: the value of a key, the empty string when the key is absent.\<close>

definition Tag_Get :: "(string \<times> string) list \<Rightarrow> string \<Rightarrow> string" where
  "Tag_Get tg k = (case map_of tg k of None \<Rightarrow> [] | Some v \<Rightarrow> v)"

section \<open>Errors\<close>

text \<open>
  One constructor per place where the package builds an error, \<open>Foreign\<close> for an error
  made by a library or by user code (a parser function, \<open>UnmarshalText\<close>, a provider),
  and \<open>Panic\<close> for a run-time panic of \<open>reflect\<close>, which unwinds through every caller
  as an error return does.
\<close>

datatype error =
    ErrNotAStructPtr
  | TagOptionNotSupported string
  | RequiredNotSet string
  | ParseError sfield error
  | NoParserError sfield
  | SyntaxError
  | RangeError
  | Foreign string
  | Panic

section \<open>strings.Split and strings.ToLower\<close>

text \<open>
  \<open>strings.Split s sep\<close> for a non-empty separator: the pieces between successive
  non-overlapping occurrences of \<open>sep\<close>, found from the left. The scan keeps the
  piece read so far, reversed.
\<close>

function splitOn :: "string \<Rightarrow> string \<Rightarrow> string \<Rightarrow> string list" where
  "splitOn sep [] acc = [rev acc]"
| "splitOn sep (c # cs) acc =
     (if sep \<noteq> [] \<and> take (length sep) (c # cs) = sep
      then rev acc # splitOn sep (drop (length sep) (c # cs)) []
      else splitOn sep cs (c # acc))"
  by pat_completeness auto
termination
  by (relation "measure (\<lambda>(sep, s, acc). length s)") auto

text \<open>With an empty separator Go splits after each UTF-8 sequence; both callers pass a
  non-empty separator.\<close>

definition Split :: "string \<Rightarrow> string \<Rightarrow> string list" where
  "Split s sep = (if sep = [] then map (\<lambda>c. [c]) s else splitOn sep s [])"

text \<open>\<open>strings.ToLower\<close> on ASCII letters; the result is only compared with \<open>true\<close>.\<close>

definition toLowerChar :: "char \<Rightarrow> char" where
  "toLowerChar c =
     (if 65 \<le> (of_char c :: nat) \<and> (of_char c :: nat) \<le> 90
      then char_of ((of_char c :: nat) + 32) else c)"

definition ToLower :: "string \<Rightarrow> string" where
  "ToLower s = map toLowerChar s"

section \<open>The environment provider\<close>

text \<open>
  The process environment is a map from variable names to values; \<open>os.LookupEnv\<close> is
  its lookup. \<open>os.ExpandEnv\<close> is a library function and is taken as a parameter
  \<open>expand\<close> of the provider. The provider's method is named \<open>Provide\<close> in one copy of
  the file and \<open>Value\<close> in the other, with the same body; the walk calls \<open>Provide\<close>.
\<close>

type_synonym osenv = "string \<rightharpoonup> string"

definition getOr :: "osenv \<Rightarrow> string \<Rightarrow> string \<Rightarrow> string" where
  "getOr env key defaultValue = (case env key of Some v \<Rightarrow> v | None \<Rightarrow> defaultValue)"

definition parseKeyForOption :: "string \<Rightarrow> string \<times> string list" where
  "parseKeyForOption key =
     (case Split key '','' of [] \<Rightarrow> ([], []) | k # opts \<Rightarrow> (k, opts))"

definition getRequired :: "osenv \<Rightarrow> string \<Rightarrow> string \<times> error option" where
  "getRequired env key =
     (case env key of Some v \<Rightarrow> (v, None) | None \<Rightarrow> ([], Some (RequiredNotSet key)))"

text \<open>The loop over the options: each iteration may overwrite \<open>val\<close> and \<open>err\<close>.\<close>

fun optsLoop :: "osenv \<Rightarrow> string \<Rightarrow> string list \<Rightarrow> string \<times> error option \<Rightarrow> string \<times> error option" where
  "optsLoop env key [] r = r"
| "optsLoop env key (opt # opts) (val, err) =
     optsLoop env key opts
       (if opt = [] then (val, err)
        else if opt = ''required'' then getRequired env key
        else (val, Some (TagOptionNotSupported opt)))"

definition Provide :: "(osenv \<Rightarrow> string \<Rightarrow> string) \<Rightarrow> string \<Rightarrow> sfield \<Rightarrow> osenv \<Rightarrow> string \<times> error option" where
  "Provide expand tag field env =
     (case parseKeyForOption (Tag_Get (ftag field) tag) of (key, opts) \<Rightarrow>
        let defaultValue = Tag_Get (ftag field) ''envDefault'';
            val = getOr env key defaultValue;
            expandVar = Tag_Get (ftag field) ''envExpand'';
            val = (if ToLower expandVar = ''true'' then expand env val else val)
        in optsLoop env key opts (val, None))"

section \<open>strconv: ParseBool, ParseUint, ParseInt\<close>

text \<open>
  The built-in parsers call \<open>strconv\<close> with base 10. The definitions follow the
  library: \<open>ParseUint\<close> reads digit by digit and stops with a range error as soon as
  the number read exceeds the largest value of the bit size; \<open>ParseInt\<close> strips one
  sign, reads the rest as unsigned and compares with the cutoff \<open>2 ^ (bitSize - 1)\<close>.
\<close>

definition ParseBool :: "string \<Rightarrow> error + bool" where
  "ParseBool s =
     (if s \<in> set [''1'', ''t'', ''T'', ''TRUE'', ''true'', ''True''] then Inr True
      else if s \<in> set [''0'', ''f'', ''F'', ''FALSE'', ''false'', ''False''] then Inr False
      else Inl SyntaxError)"

definition isDigit :: "char \<Rightarrow> bool" where
  "isDigit c = (48 \<le> (of_char c :: nat) \<and> (of_char c :: nat) \<le> 57)"

definition digitVal :: "char \<Rightarrow> nat" where
  "digitVal c = (of_char c :: nat) - 48"

fun parseUintLoop :: "nat \<Rightarrow> string \<Rightarrow> nat \<Rightarrow> error + nat" where
  "parseUintLoop maxVal [] n = Inr n"
| "parseUintLoop maxVal (c # cs) n =
     (if \<not> isDigit c then Inl SyntaxError
      else if maxVal < n * 10 + digitVal c then Inl RangeError
      else parseUintLoop maxVal cs (n * 10 + digitVal c))"

definition ParseUint :: "string \<Rightarrow> nat \<Rightarrow> error + nat" where
  "ParseUint s bitSize =
     (if s = [] then Inl SyntaxError else parseUintLoop (2 ^ bitSize - 1) s 0)"

definition ParseInt :: "string \<Rightarrow> nat \<Rightarrow> error + int" where
  "ParseInt s bitSize =
     (case s of
        [] \<Rightarrow> Inl SyntaxError
      | c # cs \<Rightarrow>
          let neg = (c = CHR ''-'');
              s1 = (if c = CHR ''+'' \<or> c = CHR ''-'' then cs else s)
          in (case ParseUint s1 bitSize of
                Inl e \<Rightarrow> Inl e
              | Inr un \<Rightarrow>
                  let cutoff = (2::nat) ^ (bitSize - 1)
                  in if \<not> neg \<and> cutoff \<le> un then Inl RangeError
                     else if neg \<and> cutoff < un then Inl RangeError
                     else Inr (if neg then - int un else int un)))"

section \<open>Parser functions and the library the walk calls\<close>

text \<open>
  A \<open>ParserFunc\<close> returns an \<open>interface{}\<close> and an error; every caller tests the error
  first, so the result is a sum. The interface value keeps its dynamic type.
\<close>

datatype dyn = Dyn gotype gval | DynNil

type_synonym ParserFunc = "string \<Rightarrow> error + dyn"

type_synonym tparsers = "gotype \<rightharpoonup> ParserFunc"

text \<open>
  What the package takes from other packages is a parameter of the embedding:
  \<^item> \<open>parseFloatOther\<close>: \<open>strconv.ParseFloat\<close> on every text that is not a decimal
    integer literal (fractions, exponents, hexadecimal, \<open>Inf\<close>, \<open>NaN\<close>, ill-formed text);
    on a decimal integer literal \<open>ParseFloat\<close> is written out below;
  \<^item> \<open>urlType\<close>, \<open>urlParse\<close>, \<open>parseDuration\<close>: \<open>url.URL\<close>, \<open>url.Parse\<close> and
    \<open>time.ParseDuration\<close> (a duration is its number of nanoseconds);
  \<^item> \<open>textUnmarshalers\<close>: for a pointer type whose method set has \<open>UnmarshalText\<close>, what
    the method does to the pointee: the new pointee and the error it returns;
  \<^item> \<open>jsonValid\<close>, \<open>jsonUnmarshalMap\<close>, \<open>jsonUnmarshal\<close>: \<open>json.Valid\<close>, whether
    \<open>json.Unmarshal\<close> into a \<open>map[string]interface{}\<close> succeeds, and \<open>json.Unmarshal\<close>
    into a new value of a struct type;
  \<^item> \<open>assignableTo\<close>, \<open>convertTo\<close>: \<open>reflect\<close>'s assignability and conversion between
    two different types (\<open>None\<close> where \<open>Convert\<close> panics).
\<close>

record env =
  parseFloatOther :: "string \<Rightarrow> nat \<Rightarrow> error + gval"
  urlType :: gotype
  urlParse :: "string \<Rightarrow> string + gval"
  parseDuration :: "string \<Rightarrow> string + int"
  textUnmarshalers :: "gotype \<rightharpoonup> (gval \<Rightarrow> string \<Rightarrow> gval \<times> error option)"
  jsonValid :: "string \<Rightarrow> bool"
  jsonUnmarshalMap :: "string \<Rightarrow> bool"
  jsonUnmarshal :: "gotype \<Rightarrow> string \<Rightarrow> error + gval"
  assignableTo :: "gotype \<Rightarrow> gotype \<Rightarrow> bool"
  convertTo :: "gotype \<Rightarrow> gval \<Rightarrow> gotype \<Rightarrow> gval option"

text \<open>
  \<open>strconv.ParseFloat\<close> on a decimal integer literal (an optional sign and one or more
  digits), as the library documents it: the result is the nearest floating-point number
  of the bit size (32: float32, otherwise float64), rounded to even on a tie, and a
  literal half a unit in the last place or more beyond the largest finite number gives
  a range error. A float of precision \<open>p\<close> keeps the top \<open>p\<close> bits of the magnitude; the
  largest binary exponent is \<open>emax\<close>.
\<close>

fun readDigits :: "nat \<Rightarrow> string \<Rightarrow> nat option" where
  "readDigits n [] = Some n"
| "readDigits n (c # cs) = (if isDigit c then readDigits (n * 10 + digitVal c) cs else None)"

definition intLiteral :: "string \<Rightarrow> (bool \<times> nat) option" where
  "intLiteral s =
     (case s of
        [] \<Rightarrow> None
      | c # cs \<Rightarrow>
          let neg = (c = CHR ''-'');
              ds = (if c = CHR ''+'' \<or> c = CHR ''-'' then cs else s)
          in if ds = [] then None
             else (case readDigits 0 ds of None \<Rightarrow> None | Some n \<Rightarrow> Some (neg, n)))"

function bitLength :: "nat \<Rightarrow> nat" where
  "bitLength n = (if n = 0 then 0 else Suc (bitLength (n div 2)))"
  by pat_completeness auto
termination
  by (relation "measure id") auto

definition roundToFloat :: "nat \<Rightarrow> nat \<Rightarrow> nat \<Rightarrow> nat option" where
  "roundToFloat p emax n =
     (if n < 2 ^ p then Some n
      else
        let k = bitLength n - p;
            q = n div 2 ^ k;
            r = n mod 2 ^ k;
            half = 2 ^ (k - 1);
            q1 = (if half < r \<or> (r = half \<and> odd q) then q + 1 else q);
            m = q1 * 2 ^ k
        in if 2 ^ (emax + 1) \<le> m then None else Some m)"

definition floatPrec :: "nat \<Rightarrow> nat" where
  "floatPrec bitSize = (if bitSize = 32 then 24 else 53)"

definition floatEmax :: "nat \<Rightarrow> nat" where
  "floatEmax bitSize = (if bitSize = 32 then 127 else 1023)"

text \<open>The values of a float type among the naturals: below \<open>2 ^ (emax + 1)\<close>, and an integer of
  at most \<open>p\<close> bits times a power of two.\<close>

definition floatValue :: "nat \<Rightarrow> nat \<Rightarrow> nat \<Rightarrow> bool" where
  "floatValue p emax n =
     (n < 2 ^ (emax + 1)
      \<and> list_ex (\<lambda>j. n mod 2 ^ j = 0 \<and> n div 2 ^ j < 2 ^ p) [0..<Suc (bitLength n)])"

definition ParseFloat :: "env \<Rightarrow> string \<Rightarrow> nat \<Rightarrow> error + gval" where
  "ParseFloat E s bitSize =
     (case intLiteral s of
        Some (neg, n) \<Rightarrow>
          (case roundToFloat (floatPrec bitSize) (floatEmax bitSize) n of
             None \<Rightarrow> Inl RangeError
           | Some m \<Rightarrow> Inr (VFloat neg (of_nat m)))
      | None \<Rightarrow> parseFloatOther E s bitSize)"

definition basicKind :: "kind \<Rightarrow> bool" where
  "basicKind k = (k \<in> set [KBool, KInt, KInt8, KInt16, KInt32, KInt64,
     KUint, KUint8, KUint16, KUint32, KUint64, KUintptr,
     KFloat32, KFloat64, KComplex64, KComplex128, KString])"

text \<open>
  \<open>reflect.ValueOf(r).Convert(t)\<close>: between identical types, and between two types of the
  same basic kind (their underlying types are identical), the value is kept; a nil
  interface panics.
\<close>

definition Convert :: "env \<Rightarrow> dyn \<Rightarrow> gotype \<Rightarrow> gval option" where
  "Convert E r t =
     (case r of
        DynNil \<Rightarrow> None
      | Dyn t0 x \<Rightarrow>
          if t0 = t \<or> (kind_of t0 = kind_of t \<and> basicKind (kind_of t)) then Some x
          else convertTo E t0 x t)"

text \<open>\<open>fieldee.Set(reflect.ValueOf(val))\<close> panics unless the value's type is assignable.\<close>

definition SetValue :: "env \<Rightarrow> dyn \<Rightarrow> gotype \<Rightarrow> gval option" where
  "SetValue E r t =
     (case r of
        DynNil \<Rightarrow> None
      | Dyn t0 x \<Rightarrow> if t0 = t \<or> assignableTo E t0 t then Some x else None)"

definition intParser :: "nat \<Rightarrow> gotype \<Rightarrow> ParserFunc" where
  "intParser bitSize t v =
     (case ParseInt v bitSize of Inl e \<Rightarrow> Inl e | Inr i \<Rightarrow> Inr (Dyn t (VInt i)))"

definition uintParser :: "nat \<Rightarrow> gotype \<Rightarrow> ParserFunc" where
  "uintParser bitSize t v =
     (case ParseUint v bitSize of Inl e \<Rightarrow> Inl e | Inr i \<Rightarrow> Inr (Dyn t (VInt (int i))))"

definition floatParser :: "env \<Rightarrow> nat \<Rightarrow> gotype \<Rightarrow> ParserFunc" where
  "floatParser E bitSize t v =
     (case ParseFloat E v bitSize of Inl e \<Rightarrow> Inl e | Inr x \<Rightarrow> Inr (Dyn t x))"

definition defaultBuiltInParsers :: "env \<Rightarrow> kind \<Rightarrow> ParserFunc option" where
  "defaultBuiltInParsers E k =
     (case k of
        KBool \<Rightarrow> Some (\<lambda>v. case ParseBool v of Inl e \<Rightarrow> Inl e
                              | Inr b \<Rightarrow> Inr (Dyn (TPrim ''bool'' KBool) (VBool b)))
      | KString \<Rightarrow> Some (\<lambda>v. Inr (Dyn (TPrim ''string'' KString) (VStr v)))
      | KInt \<Rightarrow> Some (intParser 32 (TPrim ''int'' KInt))
      | KInt16 \<Rightarrow> Some (intParser 16 (TPrim ''int16'' KInt16))
      | KInt32 \<Rightarrow> Some (intParser 32 (TPrim ''int32'' KInt32))
      | KInt64 \<Rightarrow> Some (intParser 64 (TPrim ''int64'' KInt64))
      | KInt8 \<Rightarrow> Some (intParser 8 (TPrim ''int8'' KInt8))
      | KUint \<Rightarrow> Some (uintParser 32 (TPrim ''uint'' KUint))
      | KUint16 \<Rightarrow> Some (uintParser 16 (TPrim ''uint16'' KUint16))
      | KUint32 \<Rightarrow> Some (uintParser 32 (TPrim ''uint32'' KUint32))
      | KUint64 \<Rightarrow> Some (uintParser 64 (TPrim ''uint64'' KUint64))
      | KUint8 \<Rightarrow> Some (uintParser 8 (TPrim ''uint8'' KUint8))
      | KFloat64 \<Rightarrow> Some (floatParser E 64 (TPrim ''float64'' KFloat64))
      | KFloat32 \<Rightarrow> Some (floatParser E 32 (TPrim ''float32'' KFloat32))
      | _ \<Rightarrow> None)"

definition durationType :: gotype where
  "durationType = TPrim ''time.Duration'' KInt64"

text \<open>The value the package variable \<open>defaultTypeParsers\<close> is initialised with.\<close>

definition defaultTypeParsers :: "env \<Rightarrow> tparsers" where
  "defaultTypeParsers E =
     [urlType E \<mapsto>
        (\<lambda>v. case urlParse E v of
               Inl msg \<Rightarrow> Inl (Foreign (''unable parse URL: '' @ msg))
             | Inr u \<Rightarrow> Inr (Dyn (urlType E) u)),
      durationType \<mapsto>
        (\<lambda>v. case parseDuration E v of
               Inl msg \<Rightarrow> Inl (Foreign (''unable to parser duration: '' @ msg))
             | Inr d \<Rightarrow> Inr (Dyn durationType (VInt d)))]"

section \<open>Zero values\<close>

definition zeroPrim :: "kind \<Rightarrow> gval" where
  "zeroPrim k =
     (if k = KBool then VBool False
      else if k = KString then VStr []
      else if k \<in> set [KInt, KInt8, KInt16, KInt32, KInt64,
                        KUint, KUint8, KUint16, KUint32, KUint64, KUintptr] then VInt 0
      else if k \<in> set [KFloat32, KFloat64] then VFloat False 0
      else if k \<in> set [KComplex64, KComplex128] then VOther ''0''
      else VNil)"

primrec zero :: "gotype \<Rightarrow> gval" and zero_field :: "sfield \<Rightarrow> gval" where
  "zero (TPrim n k) = zeroPrim k"
| "zero (TPtr n t) = VNil"
| "zero (TSlice n t) = VSlice []"
| "zero (TStruct n fs) = VStruct (map zero_field fs)"
| "zero_field (SField n t tg ex) = zero t"


section \<open>Converting one resolved string: set and its helpers\<close>

definition newParseError :: "sfield \<Rightarrow> error option \<Rightarrow> error option" where
  "newParseError sf err = (case err of None \<Rightarrow> None | Some e \<Rightarrow> Some (ParseError sf e))"

definition newNoParserError :: "sfield \<Rightarrow> error" where
  "newNoParserError sf = NoParserError sf"

fun deref :: "gval \<Rightarrow> gval" where
  "deref (VPtr x) = x"
| "deref v = v"

text \<open>
  \<open>asTextUnmarshaler\<close> allocates the pointee of a nil pointer field before it asks for
  the interface, whatever the answer is. It returns the field as it is afterwards and,
  when the interface is implemented, the call of \<open>UnmarshalText\<close> on the field: a
  function from the text to the field after the call and the error.
\<close>

definition asTextUnmarshaler ::
  "env \<Rightarrow> gotype \<Rightarrow> gval \<Rightarrow> gval \<times> (string \<Rightarrow> gval \<times> error option) option" where
  "asTextUnmarshaler E t field =
     (if kind_of t = KPtr then
        let field1 = (if field = VNil then VPtr (zero (elem t)) else field)
        in (field1,
            case textUnmarshalers E t of
              None \<Rightarrow> None
            | Some um \<Rightarrow> Some (\<lambda>text. case um (deref field1) text of (x, err) \<Rightarrow> (VPtr x, err)))
      else
        (field,
         case textUnmarshalers E (TPtr [] t) of
           None \<Rightarrow> None
         | Some um \<Rightarrow> Some (\<lambda>text. um field text)))"

fun tuLoop :: "env \<Rightarrow> gotype \<Rightarrow> sfield \<Rightarrow> string list \<Rightarrow> error + gval list" where
  "tuLoop E elemType sf [] = Inr []"
| "tuLoop E elemType sf (v # data) =
     (let isPtr = (kind_of elemType = KPtr);
          t = (if isPtr then elem elemType else elemType)
      in case textUnmarshalers E (TPtr [] t) of
           None \<Rightarrow> Inl Panic
         | Some um \<Rightarrow>
             (case um (zero t) v of
                (x, Some err) \<Rightarrow> Inl (ParseError sf err)
              | (x, None) \<Rightarrow>
                  (case tuLoop E elemType sf data of
                     Inl e \<Rightarrow> Inl e
                   | Inr xs \<Rightarrow> Inr ((if isPtr then VPtr x else x) # xs))))"

definition parseTextUnmarshalers :: "env \<Rightarrow> gval \<Rightarrow> string list \<Rightarrow> sfield \<Rightarrow> gval \<times> error option" where
  "parseTextUnmarshalers E field data sf =
     (case tuLoop E (elem (ftype sf)) sf data of
        Inl e \<Rightarrow> (field, Some e)
      | Inr xs \<Rightarrow> (VSlice xs, None))"

fun sliceLoop :: "env \<Rightarrow> ParserFunc \<Rightarrow> gotype \<Rightarrow> bool \<Rightarrow> sfield \<Rightarrow> string list \<Rightarrow> error + gval list" where
  "sliceLoop E parserFunc typee isPtr sf [] = Inr []"
| "sliceLoop E parserFunc typee isPtr sf (part # parts) =
     (case parserFunc part of
        Inl err \<Rightarrow> Inl (ParseError sf err)
      | Inr r \<Rightarrow>
          (case Convert E r typee of
             None \<Rightarrow> Inl Panic
           | Some x \<Rightarrow>
               (case sliceLoop E parserFunc typee isPtr sf parts of
                  Inl e \<Rightarrow> Inl e
                | Inr xs \<Rightarrow> Inr ((if isPtr then VPtr x else x) # xs))))"

definition handleSlice :: "env \<Rightarrow> gval \<Rightarrow> string \<Rightarrow> sfield \<Rightarrow> tparsers \<Rightarrow> gval \<times> error option" where
  "handleSlice E field value sf funcMap =
     (let separator = Tag_Get (ftag sf) ''envSeparator'';
          separator = (if separator = [] then '','' else separator);
          parts = Split value separator;
          isPtr = (kind_of (elem (ftype sf)) = KPtr);
          typee = (if isPtr then elem (elem (ftype sf)) else elem (ftype sf))
      in if textUnmarshalers E (TPtr [] typee) \<noteq> None
         then parseTextUnmarshalers E field parts sf
         else
           (case (case funcMap typee of
                    Some p \<Rightarrow> Some p
                  | None \<Rightarrow> defaultBuiltInParsers E (kind_of typee)) of
              None \<Rightarrow> (field, Some (newNoParserError sf))
            | Some parserFunc \<Rightarrow>
                (case sliceLoop E parserFunc typee isPtr sf parts of
                   Inl e \<Rightarrow> (field, Some e)
                 | Inr xs \<Rightarrow> (VSlice xs, None))))"

definition isJSONObj :: "env \<Rightarrow> string \<Rightarrow> bool" where
  "isJSONObj E s = jsonUnmarshalMap E s"

definition set_field :: "env \<Rightarrow> gval \<Rightarrow> sfield \<Rightarrow> string \<Rightarrow> tparsers \<Rightarrow> gval \<times> error option" where
  "set_field E field sf value funcMap =
     (if kind_of (ftype sf) = KSlice then handleSlice E field value sf funcMap
      else
        (case asTextUnmarshaler E (ftype sf) field of
           (field1, Some tm) \<Rightarrow>
             (case tm value of (field2, err) \<Rightarrow> (field2, newParseError sf err))
         | (field1, None) \<Rightarrow>
             let isPtr = (kind_of (ftype sf) = KPtr);
                 typee = (if isPtr then elem (ftype sf) else ftype sf);
                 assign = (\<lambda>x. if isPtr then VPtr x else x)
             in (case funcMap typee of
                   Some parserFunc \<Rightarrow>
                     (case parserFunc value of
                        Inl err \<Rightarrow> (field1, newParseError sf (Some err))
                      | Inr val \<Rightarrow>
                          (case SetValue E val typee of
                             None \<Rightarrow> (field1, Some Panic)
                           | Some x \<Rightarrow> (assign x, None)))
                 | None \<Rightarrow>
                     (case defaultBuiltInParsers E (kind_of typee) of
                        Some parserFunc \<Rightarrow>
                          (case parserFunc value of
                             Inl err \<Rightarrow> (field1, newParseError sf (Some err))
                           | Inr val \<Rightarrow>
                               (case Convert E val typee of
                                  None \<Rightarrow> (field1, Some Panic)
                                | Some x \<Rightarrow> (assign x, None)))
                      | None \<Rightarrow>
                          if kind_of typee = KStruct \<and> jsonValid E value \<and> isJSONObj E value
                          then (case jsonUnmarshal E typee value of
                                  Inl err \<Rightarrow> (field1, Some err)
                                | Inr x \<Rightarrow> (assign x, None))
                          else (field1, Some (newNoParserError sf))))))"

section \<open>The walk\<close>

text \<open>
  The state a call can change beyond its target: the package variable
  \<open>defaultTypeParsers\<close> (a Go map, so a reference) and the world the providers read.
  A provider maps a field descriptor and the world to its answer and the world after
  the call. Every function returns the state, the target as it is left (also when it
  fails: nothing is rolled back) and the error.
\<close>

type_synonym 'w state = "tparsers \<times> 'w"

type_synonym 'w provider = "sfield \<Rightarrow> 'w \<Rightarrow> (string \<times> error option) \<times> 'w"

definition CanSet :: "sfield \<Rightarrow> bool" where
  "CanSet f = exported f"

text \<open>
  The measure of the recursion: the walk only descends into the type of a field, and a
  struct type is a finite tree.
\<close>

primrec tsize :: "gotype \<Rightarrow> nat" and fsize :: "sfield \<Rightarrow> nat" where
  "tsize (TPrim n k) = 1"
| "tsize (TPtr n t) = 1 + tsize t"
| "tsize (TSlice n t) = 1 + tsize t"
| "tsize (TStruct n fs) = 1 + sum_list (map fsize fs)"
| "fsize (SField n t tg ex) = 3 + tsize t"

lemma fsize_ftype: "fsize f = 3 + tsize (ftype f)"
  by (cases f) simp

text \<open>
  \<open>ParseWithFuncs\<close> checks that its argument is a pointer to a struct (a nil pointer
  has no struct behind it), merges the custom parsers into the map the package variable
  refers to, and walks the struct with that map. \<open>doParse\<close> is the loop over the
  fields; \<open>doParseField\<close> is the body of the loop for one field, where \<open>continue\<close>
  and reaching the end of the body both mean: no error, go on with the next field.
  A field that is not exported cannot be set; every struct the walk reaches is
  addressable, so \<open>CanSet\<close> is \<open>exported\<close> and \<open>CanAddr\<close> holds.
  The functions take a type and a value of that type. Where a value does not have the
  shape of its type, which Go's typing excludes, they leave it as it is.
  Inside a walk \<open>funcMap\<close> is the very map the package variable refers to. The
  functions pass its value along and return the variable's value in the state; that the
  two agree all through a walk is lemma \<open>walk_refines\<close> below.
\<close>

function ParseWithFuncs ::
    "env \<Rightarrow> gotype \<Rightarrow> gval \<Rightarrow> tparsers \<Rightarrow> 'w provider \<Rightarrow> 'w state \<Rightarrow> 'w state \<times> gval \<times> error option"
  and doParse ::
    "env \<Rightarrow> sfield list \<Rightarrow> gval list \<Rightarrow> tparsers \<Rightarrow> 'w provider \<Rightarrow> 'w state \<Rightarrow> 'w state \<times> gval list \<times> error option"
  and doParseField ::
    "env \<Rightarrow> sfield \<Rightarrow> gval \<Rightarrow> tparsers \<Rightarrow> 'w provider \<Rightarrow> 'w state \<Rightarrow> 'w state \<times> gval \<times> error option"
where
  "ParseWithFuncs E t v funcMap provider st =
     (case t of
        TPtr n t1 \<Rightarrow>
          (case t1 of
             TStruct m fs \<Rightarrow>
               (case v of
                  VPtr (VStruct vs) \<Rightarrow>
                    let parsers = fst st ++ funcMap
                    in (case doParse E fs vs parsers provider (parsers, snd st) of
                          (st1, vs1, err) \<Rightarrow> (st1, VPtr (VStruct vs1), err))
                | _ \<Rightarrow> (st, v, Some ErrNotAStructPtr))
           | _ \<Rightarrow> (st, v, Some ErrNotAStructPtr))
      | _ \<Rightarrow> (st, v, Some ErrNotAStructPtr))"
| "doParse E [] vs funcMap provider st = (st, vs, None)"
| "doParse E (f # fs) [] funcMap provider st = (st, [], None)"
| "doParse E (f # fs) (v # vs) funcMap provider st =
     (case doParseField E f v funcMap provider st of
        (st1, v1, Some err) \<Rightarrow> (st1, v1 # vs, Some err)
      | (st1, v1, None) \<Rightarrow>
          (case doParse E fs vs funcMap provider st1 of
             (st2, vs2, err) \<Rightarrow> (st2, v1 # vs2, err)))"
| "doParseField E f v funcMap provider st =
     (if \<not> CanSet f then (st, v, None)
      else if kind_of (ftype f) = KPtr \<and> v \<noteq> VNil then
        ParseWithFuncs E (ftype f) v funcMap provider st
      else if kind_of (ftype f) = KStruct \<and> tname (ftype f) = [] then
        (case ParseWithFuncs E (TPtr [] (ftype f)) (VPtr v) Map.empty provider st of
           (st1, v1, err) \<Rightarrow> (st1, deref v1, err))
      else
        (case provider f (snd st) of
           ((value, Some err), w1) \<Rightarrow> ((fst st, w1), v, Some err)
         | ((value, None), w1) \<Rightarrow>
             if value = [] then
               (case ftype f of
                  TStruct m fs1 \<Rightarrow>
                    (case v of
                       VStruct vs1 \<Rightarrow>
                         (case doParse E fs1 vs1 funcMap provider (fst st, w1) of
                            (st2, vs2, err) \<Rightarrow> (st2, VStruct vs2, err))
                     | _ \<Rightarrow> ((fst st, w1), v, None))
                | _ \<Rightarrow> ((fst st, w1), v, None))
             else
               (case set_field E v f value funcMap of
                  (v1, err) \<Rightarrow> ((fst st, w1), v1, err))))"
  by pat_completeness auto
termination
  by (relation "measure (\<lambda>x. case x of
            Inl (E, t, v, funcMap, provider, st) \<Rightarrow> tsize t
          | Inr (Inl (E, fs, vs, funcMap, provider, st)) \<Rightarrow> sum_list (map fsize fs)
          | Inr (Inr (E, f, v, funcMap, provider, st)) \<Rightarrow> 2 + tsize (ftype f))")
    (auto simp: fsize_ftype)

text \<open>
  \<open>Parse\<close> runs \<open>ParseWithFuncs\<close> with an empty custom map once per provider and
  returns at the first error. (The call \<open>Parse(refField.Addr().Interface(), provider)\<close>
  inside \<open>doParse\<close> has one provider; it is written there as the one call of
  \<open>ParseWithFuncs\<close> it makes.)
\<close>

fun Parse ::
  "env \<Rightarrow> gotype \<Rightarrow> gval \<Rightarrow> 'w provider list \<Rightarrow> 'w state \<Rightarrow> 'w state \<times> gval \<times> error option" where
  "Parse E t v [] st = (st, v, None)"
| "Parse E t v (p # ps) st =
     (case ParseWithFuncs E t v Map.empty p st of
        (st1, v1, Some err) \<Rightarrow> (st1, v1, Some err)
      | (st1, v1, None) \<Rightarrow> Parse E t v1 ps st1)"

text \<open>The environment provider as a provider of the walk: its world is the process
  environment, which it only reads.\<close>

definition envProvider :: "(osenv \<Rightarrow> string \<Rightarrow> string) \<Rightarrow> string \<Rightarrow> osenv provider" where
  "envProvider expand tag = (\<lambda>field env. (Provide expand tag field env, env))"


section \<open>One walk with one parser map\<close>

text \<open>
  The walk again, with the parser map \<open>pm\<close> fixed once for every field at every depth
  and no package variable: \<open>walk_ptr\<close> stands for the nested call on a pointer,
  \<open>walk\<close> for the loop over the fields, \<open>walk_field\<close> for one field. It is what a
  call is compared with to say which parser map the call and its nested calls use.
\<close>

function walk_ptr ::
    "env \<Rightarrow> tparsers \<Rightarrow> 'w provider \<Rightarrow> gotype \<Rightarrow> gval \<Rightarrow> 'w \<Rightarrow> 'w \<times> gval \<times> error option"
  and walk ::
    "env \<Rightarrow> tparsers \<Rightarrow> 'w provider \<Rightarrow> sfield list \<Rightarrow> gval list \<Rightarrow> 'w \<Rightarrow> 'w \<times> gval list \<times> error option"
  and walk_field ::
    "env \<Rightarrow> tparsers \<Rightarrow> 'w provider \<Rightarrow> sfield \<Rightarrow> gval \<Rightarrow> 'w \<Rightarrow> 'w \<times> gval \<times> error option"
where
  "walk_ptr E pm provider t v w =
     (case t of
        TPtr n t1 \<Rightarrow>
          (case t1 of
             TStruct m fs \<Rightarrow>
               (case v of
                  VPtr (VStruct vs) \<Rightarrow>
                    (case walk E pm provider fs vs w of
                       (w1, vs1, err) \<Rightarrow> (w1, VPtr (VStruct vs1), err))
                | _ \<Rightarrow> (w, v, Some ErrNotAStructPtr))
           | _ \<Rightarrow> (w, v, Some ErrNotAStructPtr))
      | _ \<Rightarrow> (w, v, Some ErrNotAStructPtr))"
| "walk E pm provider [] vs w = (w, vs, None)"
| "walk E pm provider (f # fs) [] w = (w, [], None)"
| "walk E pm provider (f # fs) (v # vs) w =
     (case walk_field E pm provider f v w of
        (w1, v1, Some err) \<Rightarrow> (w1, v1 # vs, Some err)
      | (w1, v1, None) \<Rightarrow>
          (case walk E pm provider fs vs w1 of (w2, vs2, err) \<Rightarrow> (w2, v1 # vs2, err)))"
| "walk_field E pm provider f v w =
     (if \<not> exported f then (w, v, None)
      else if kind_of (ftype f) = KPtr \<and> v \<noteq> VNil then walk_ptr E pm provider (ftype f) v w
      else if kind_of (ftype f) = KStruct \<and> tname (ftype f) = [] then
        (case walk_ptr E pm provider (TPtr [] (ftype f)) (VPtr v) w of
           (w1, v1, err) \<Rightarrow> (w1, deref v1, err))
      else
        (case provider f w of
           ((value, Some err), w1) \<Rightarrow> (w1, v, Some err)
         | ((value, None), w1) \<Rightarrow>
             if value = [] then
               (case ftype f of
                  TStruct m fs1 \<Rightarrow>
                    (case v of
                       VStruct vs1 \<Rightarrow>
                         (case walk E pm provider fs1 vs1 w1 of
                            (w2, vs2, err) \<Rightarrow> (w2, VStruct vs2, err))
                     | _ \<Rightarrow> (w1, v, None))
                | _ \<Rightarrow> (w1, v, None))
             else
               (case set_field E v f value pm of (v1, err) \<Rightarrow> (w1, v1, err))))"
  by pat_completeness auto
termination
  by (relation "measure (\<lambda>x. case x of
            Inl (E, pm, provider, t, v, w) \<Rightarrow> tsize t
          | Inr (Inl (E, pm, provider, fs, vs, w)) \<Rightarrow> sum_list (map fsize fs)
          | Inr (Inr (E, pm, provider, f, v, w)) \<Rightarrow> 2 + tsize (ftype f))")
    (auto simp: fsize_ftype)


section \<open>Destination type and allocation\<close>

text \<open>
  The destination type of a pointer field is the type pointed to, and the unmarshaler
  asked for is that of the pointer type. \<open>allocated\<close> is a field after
  \<open>asTextUnmarshaler\<close> has looked at it (a nil pointer has got a zero pointee);
  \<open>store\<close> is the field after a value was set through it.
\<close>

definition destType :: "sfield \<Rightarrow> gotype" where
  "destType sf = (if kind_of (ftype sf) = KPtr then elem (ftype sf) else ftype sf)"

definition unmarshalerOf :: "env \<Rightarrow> sfield \<Rightarrow> (gval \<Rightarrow> string \<Rightarrow> gval \<times> error option) option" where
  "unmarshalerOf E sf =
     textUnmarshalers E (if kind_of (ftype sf) = KPtr then ftype sf else TPtr [] (ftype sf))"

definition allocated :: "sfield \<Rightarrow> gval \<Rightarrow> gval" where
  "allocated sf field =
     (if kind_of (ftype sf) = KPtr \<and> field = VNil then VPtr (zero (elem (ftype sf))) else field)"

definition store :: "sfield \<Rightarrow> gval \<Rightarrow> gval" where
  "store sf x = (if kind_of (ftype sf) = KPtr then VPtr x else x)"

section \<open>Slices, part by part\<close>

text \<open>
  What the specification says of a slice field: the string is split on the field's
  separator (a comma when the tag gives none), every part is converted on its own, and
  the results, in order, are the new slice. \<open>collect\<close> gives the first error of a list
  of results, or all the values.
\<close>

definition separatorOf :: "sfield \<Rightarrow> string" where
  "separatorOf sf =
     (if Tag_Get (ftag sf) ''envSeparator'' = [] then '','' else Tag_Get (ftag sf) ''envSeparator'')"

definition viaParser :: "env \<Rightarrow> sfield \<Rightarrow> gotype \<Rightarrow> ParserFunc \<Rightarrow> string \<Rightarrow> error + gval" where
  "viaParser E sf typee parserFunc part =
     (case parserFunc part of
        Inl err \<Rightarrow> Inl (ParseError sf err)
      | Inr r \<Rightarrow> (case Convert E r typee of None \<Rightarrow> Inl Panic | Some x \<Rightarrow> Inr x))"

definition convertPart :: "env \<Rightarrow> sfield \<Rightarrow> tparsers \<Rightarrow> string \<Rightarrow> error + gval" where
  "convertPart E sf funcMap part =
     (let isPtr = (kind_of (elem (ftype sf)) = KPtr);
          typee = (if isPtr then elem (elem (ftype sf)) else elem (ftype sf));
          r = (case textUnmarshalers E (TPtr [] typee) of
                 Some um \<Rightarrow>
                   (case um (zero typee) part of
                      (x, Some err) \<Rightarrow> Inl (ParseError sf err)
                    | (x, None) \<Rightarrow> Inr x)
               | None \<Rightarrow>
                   (case funcMap typee of
                      Some parserFunc \<Rightarrow> viaParser E sf typee parserFunc part
                    | None \<Rightarrow>
                        (case defaultBuiltInParsers E (kind_of typee) of
                           Some parserFunc \<Rightarrow> viaParser E sf typee parserFunc part
                         | None \<Rightarrow> Inl (NoParserError sf))))
      in case r of Inl e \<Rightarrow> Inl e | Inr x \<Rightarrow> Inr (if isPtr then VPtr x else x))"

fun collect :: "(error + 'a) list \<Rightarrow> error + 'a list" where
  "collect [] = Inr []"
| "collect (r # rs) =
     (case r of
        Inl e \<Rightarrow> Inl e
      | Inr x \<Rightarrow> (case collect rs of Inl e \<Rightarrow> Inl e | Inr xs \<Rightarrow> Inr (x # xs)))"

section \<open>Integer literals and ranges\<close>

text \<open>
  The decimal literal of an integer, the range of a signed or unsigned type of a given
  bit width, and two widths per kind: \<open>typeBits intSize k\<close> is the width of the Go type
  (\<open>int\<close> and \<open>uint\<close> have the platform's \<open>intSize\<close>, 32 or 64); \<open>parserBits k\<close> is
  the bit size the built-in parser of the kind passes to \<open>strconv\<close>.
\<close>

definition digitChar :: "nat \<Rightarrow> char" where
  "digitChar d = ''0123456789'' ! (d mod 10)"

function decimal :: "nat \<Rightarrow> string" where
  "decimal n = (if n < 10 then [digitChar n] else decimal (n div 10) @ [digitChar (n mod 10)])"
  by pat_completeness auto
termination
  by (relation "measure id") auto

definition literal :: "int \<Rightarrow> string" where
  "literal i = (if i < 0 then CHR ''-'' # decimal (nat (- i)) else decimal (nat i))"

definition signedKind :: "kind \<Rightarrow> bool" where
  "signedKind k = (k \<in> set [KInt, KInt8, KInt16, KInt32, KInt64])"

definition unsignedKind :: "kind \<Rightarrow> bool" where
  "unsignedKind k = (k \<in> set [KUint, KUint8, KUint16, KUint32, KUint64])"

definition floatKind :: "kind \<Rightarrow> bool" where
  "floatKind k = (k \<in> set [KFloat32, KFloat64])"

definition typeBits :: "nat \<Rightarrow> kind \<Rightarrow> nat" where
  "typeBits intSize k =
     (if k \<in> set [KInt8, KUint8] then 8
      else if k \<in> set [KInt16, KUint16] then 16
      else if k \<in> set [KInt32, KUint32, KFloat32] then 32
      else if k \<in> set [KInt64, KUint64, KFloat64] then 64
      else if k \<in> set [KInt, KUint] then intSize
      else 0)"

definition parserBits :: "kind \<Rightarrow> nat" where
  "parserBits k = typeBits 32 k"

definition fits :: "bool \<Rightarrow> nat \<Rightarrow> int \<Rightarrow> bool" where
  "fits signed bits i =
     (if signed then - (2 ^ (bits - 1)) \<le> i \<and> i < 2 ^ (bits - 1)
      else 0 \<le> i \<and> i < 2 ^ bits)"

section \<open>Worked inputs\<close>

text \<open>
  A program without text-unmarshaling types, and library functions that reject their
  input: enough for fields of the built-in kinds. The provider \<open>constProvider s\<close>
  answers \<open>s\<close> for every field; its world counts how often it was asked.
\<close>

definition exampleEnv :: env where
  "exampleEnv = \<lparr>
     parseFloatOther = (\<lambda>s bitSize. Inl SyntaxError),
     urlType = TStruct ''URL'' [],
     urlParse = (\<lambda>s. Inl ''invalid URL''),
     parseDuration = (\<lambda>s. Inl ''invalid duration''),
     textUnmarshalers = Map.empty,
     jsonValid = (\<lambda>s. False),
     jsonUnmarshalMap = (\<lambda>s. False),
     jsonUnmarshal = (\<lambda>t s. Inl (Foreign ''invalid JSON'')),
     assignableTo = (\<lambda>t u. False),
     convertTo = (\<lambda>t x u. None) \<rparr>"

definition constProvider :: "string \<Rightarrow> nat provider" where
  "constProvider s = (\<lambda>f n. ((s, None), Suc n))"

definition intT :: gotype where
  "intT = TPrim ''int'' KInt"

text \<open>\<open>struct { P *int `env:"X"` }\<close>, \<open>struct { N int `env:"N"` }\<close> and \<open>struct {}\<close>.\<close>

definition ptrCfgT :: gotype where
  "ptrCfgT = TStruct ''PtrConfig'' [SField ''P'' (TPtr [] intT) [(''env'', ''X'')] True]"

definition intCfgT :: gotype where
  "intCfgT = TStruct ''IntConfig'' [SField ''N'' intT [(''env'', ''N'')] True]"

definition emptyCfgT :: gotype where
  "emptyCfgT = TStruct ''Empty'' []"

text \<open>A custom parser for \<open>int\<close> that answers 42 whatever the text.\<close>

definition always42 :: tparsers where
  "always42 = [intT \<mapsto> (\<lambda>s. Inr (Dyn intT (VInt 42)))]"

text \<open>A struct with a field of unnamed struct type and a non-nil pointer to a struct:
  \<open>struct { N int; Inner struct { M int }; Ref *Leaf }\<close>.\<close>

definition nestedCfgT :: gotype where
  "nestedCfgT = TStruct ''Nested''
     [SField ''N'' intT [(''env'', ''N'')] True,
      SField ''Inner'' (TStruct [] [SField ''M'' intT [(''env'', ''M'')] True]) [] True,
      SField ''Ref'' (TPtr [] (TStruct ''Leaf'' [SField ''K'' intT [(''env'', ''K'')] True])) [] True]"

text \<open>\<open>Hosts []string `env:"HOSTS" envSeparator:":"`\<close>, \<open>B int8 `env:"B"`\<close> and
  \<open>N int `env:"N"`\<close>.\<close>

definition hostsField :: sfield where
  "hostsField = SField ''Hosts'' (TSlice [] (TPrim ''string'' KString))
     [(''env'', ''HOSTS''), (''envSeparator'', '':'')] True"

definition int8Field :: sfield where
  "int8Field = SField ''B'' (TPrim ''int8'' KInt8) [(''env'', ''B'')] True"

definition ptrInt8Field :: sfield where
  "ptrInt8Field = SField ''PB'' (TPtr [] (TPrim ''int8'' KInt8)) [(''env'', ''PB'')] True"

definition intField :: sfield where
  "intField = SField ''N'' intT [(''env'', ''N'')] True"

definition float32Field :: sfield where
  "float32Field = SField ''F'' (TPrim ''float32'' KFloat32) [(''env'', ''F'')] True"

text \<open>\<open>struct { Hosts []string `env:"HOSTS" envSeparator:":"` }\<close>.\<close>

definition hostsCfgT :: gotype where
  "hostsCfgT = TStruct ''HostsConfig'' [hostsField]"

text \<open>\<open>struct { N int `env:"N"`; S string `env:"S"` }\<close> and a custom parser for
  \<open>string\<close> that answers \<open>custom\<close> whatever the text.\<close>

definition stringT :: gotype where
  "stringT = TPrim ''string'' KString"

definition pairFields :: "sfield list" where
  "pairFields = [SField ''N'' intT [(''env'', ''N'')] True, SField ''S'' stringT [(''env'', ''S'')] True]"

definition pairCfgT :: gotype where
  "pairCfgT = TStruct ''Pair'' pairFields"

definition customString :: tparsers where
  "customString = [stringT \<mapsto> (\<lambda>s. Inr (Dyn stringT (VStr ''custom'')))]"

text \<open>
  \<open>struct { Ref Leaf `env:"REF"` }\<close> with \<open>type Leaf struct { K int }\<close>, and what
  \<open>encoding/json\<close> does with the text \<open>null\<close>: \<open>json.Valid\<close> accepts it, and
  \<open>json.Unmarshal\<close> of \<open>null\<close> into a map or into a pointer to a new struct returns no
  error and leaves a struct as it is, so the new struct stays zero. Other texts are not
  needed here and are rejected.
\<close>

definition leafT :: gotype where
  "leafT = TStruct ''Leaf'' [SField ''K'' intT [] True]"

definition refField :: sfield where
  "refField = SField ''Ref'' leafT [(''env'', ''REF'')] True"

definition holderT :: gotype where
  "holderT = TStruct ''Holder'' [refField]"

definition jsonNullEnv :: env where
  "jsonNullEnv = exampleEnv \<lparr>
     jsonValid := (\<lambda>s. s = ''null''),
     jsonUnmarshalMap := (\<lambda>s. s = ''null''),
     jsonUnmarshal := (\<lambda>t s. if s = ''null'' then Inr (zero t) else Inl (Foreign ''invalid JSON'')) \<rparr>"

text \<open>
  \<open>struct { Dir string `env:"DIR,required" envExpand:"true"` }\<close>, a process
  environment in which \<open>DIR\<close> is \<open>${HOME}/tmp\<close> and \<open>HOME\<close> is \<open>/root\<close>, and
  what \<open>os.ExpandEnv\<close> makes of that one value there.
\<close>

definition dirField :: sfield where
  "dirField = SField ''Dir'' stringT [(''env'', ''DIR,required''), (''envExpand'', ''true'')] True"

definition dirCfgT :: gotype where
  "dirCfgT = TStruct ''DirConfig'' [dirField]"

definition dirEnv :: osenv where
  "dirEnv = [''DIR'' \<mapsto> ''${HOME}/tmp'', ''HOME'' \<mapsto> ''/root'']"

definition expandHome :: "osenv \<Rightarrow> string \<Rightarrow> string" where
  "expandHome env s =
     (if s = ''${HOME}/tmp'' then (case env ''HOME'' of Some h \<Rightarrow> h | None \<Rightarrow> []) @ ''/tmp''
      else s)"


declare ParseWithFuncs.simps [simp del] walk_ptr.simps [simp del]
  doParseField.simps [simp del] walk_field.simps [simp del]

section \<open>The environment provider: options of the source-key tag\<close>

lemma optsLoop_keeps_raw:
  "env key = Some raw \<Longrightarrow> fst r = raw \<Longrightarrow> fst (optsLoop env key opts r) = raw"
  by (induction opts arbitrary: r) (auto simp: getRequired_def split: prod.splits)

lemma optsLoop_required_raw:
  "env key = Some raw \<Longrightarrow> ''required'' \<in> set opts \<Longrightarrow> fst (optsLoop env key opts r) = raw"
proof (induction opts arbitrary: r)
  case Nil
  then show ?case by simp
next
  case (Cons opt opts)
  obtain val err where r: "r = (val, err)" by (cases r)
  show ?case
  proof (cases "opt = ''required''")
    case True
    then show ?thesis using Cons.prems(1) r
      by (simp add: getRequired_def optsLoop_keeps_raw)
  next
    case False
    then have "''required'' \<in> set opts" using Cons.prems(2) by simp
    then show ?thesis using Cons.IH [OF Cons.prems(1)] r by simp
  qed
qed

text \<open>
  C9. The claim: whenever the option list of the source-key tag holds an unrecognised
  token, \<open>Provide\<close> returns an error naming it, wherever the token stands. The loop
  over the options keeps going after the unsupported token, and a later \<open>required\<close>
  overwrites the error: with the tag \<open>KEY,bogus,required\<close> and \<open>KEY\<close> set to \<open>v\<close>, the
  provider returns \<open>v\<close> and no error.
\<close>

theorem Provide_unsupported_option_lost:
  "Provide expand ''env''
     (SField ''F'' (TPrim ''string'' KString) [(''env'', ''KEY,bogus,required'')] True)
     [''KEY'' \<mapsto> ''v''] = (''v'', None)"
  by (simp add: Provide_def parseKeyForOption_def Split_def Tag_Get_def getOr_def
      getRequired_def ToLower_def)

text \<open>What the loop body does with a field it asks the provider about, when the provider
  answers a non-empty string without error: it calls \<open>set\<close> and nothing else.\<close>

lemma doParseField_resolved:
  assumes "exported f"
    and "\<not> (kind_of (ftype f) = KPtr \<and> v \<noteq> VNil)"
    and "\<not> (kind_of (ftype f) = KStruct \<and> tname (ftype f) = [])"
    and "provider f (snd st) = ((str, None), w1)"
    and "str \<noteq> []"
  shows "doParseField E f v funcMap provider st =
     (case set_field E v f str funcMap of (v1, err) \<Rightarrow> ((fst st, w1), v1, err))"
proof -
  have c1: "(kind_of (ftype f) = KPtr \<and> v \<noteq> VNil) = False" using assms(2) by simp
  have c2: "(kind_of (ftype f) = KStruct \<and> tname (ftype f) = []) = False" using assms(3) by simp
  show ?thesis
    unfolding doParseField.simps [of E f v funcMap provider st] c1 c2
    using assms(1,4,5) by (simp add: CanSet_def)
qed

lemma optsLoop_only_required:
  assumes "env key = Some raw" and "set opts \<subseteq> {[], ''required''}"
    and "snd r = None"
  shows "snd (optsLoop env key opts r) = None"
  using assms
proof (induction opts arbitrary: r)
  case Nil
  then show ?case by simp
next
  case (Cons opt opts)
  obtain val err where r: "r = (val, err)" by (cases r)
  from Cons.prems have o: "opt = [] \<or> opt = ''required''" and os: "set opts \<subseteq> {[], ''required''}"
    by auto
  from o show ?case
  proof
    assume "opt = []"
    then show ?thesis using Cons.IH [OF Cons.prems(1) os, of r] Cons.prems(3) r by simp
  next
    assume "opt = ''required''"
    then show ?thesis
      using Cons.IH [OF Cons.prems(1) os, of "(raw, None)"] Cons.prems(1) r
      by (simp add: getRequired_def)
  qed
qed

text \<open>
  C10. When the options of the source-key tag are \<open>required\<close> and empty tokens only,
  \<open>required\<close> is among them and the variable named by the key is set, \<open>Provide\<close>
  returns the variable's raw value and no error, whatever the default and the expansion
  had produced before the options were processed; and the loop body of the walk, for a
  field it resolves through this provider, hands exactly that raw value to \<open>set\<close>, so
  a string field receives the unexpanded value.
\<close>

theorem Provide_required_returns_raw:
  assumes "set (snd (parseKeyForOption (Tag_Get (ftag field) tag))) \<subseteq> {[], ''required''}"
    and "''required'' \<in> set (snd (parseKeyForOption (Tag_Get (ftag field) tag)))"
    and "env (fst (parseKeyForOption (Tag_Get (ftag field) tag))) = Some raw"
  shows "Provide expand tag field env = (raw, None)
     \<and> (exported field \<and> \<not> (kind_of (ftype field) = KPtr \<and> v \<noteq> VNil)
          \<and> \<not> (kind_of (ftype field) = KStruct \<and> tname (ftype field) = []) \<and> raw \<noteq> [] \<longrightarrow>
        doParseField E field v funcMap (envProvider expand tag) (G, env) =
          (case set_field E v field raw funcMap of (v1, err) \<Rightarrow> ((G, env), v1, err)))
     \<and> (exported field \<and> kind_of (ftype field) = KString \<and> raw \<noteq> []
          \<and> textUnmarshalers E (TPtr [] (ftype field)) = None \<and> funcMap (ftype field) = None \<longrightarrow>
        doParseField E field v funcMap (envProvider expand tag) (G, env) =
          ((G, env), VStr raw, None))"
proof -
  obtain key opts where ko: "parseKeyForOption (Tag_Get (ftag field) tag) = (key, opts)"
    by (cases "parseKeyForOption (Tag_Get (ftag field) tag)")
  with assms have k: "env key = Some raw" and r: "''required'' \<in> set opts"
    and os: "set opts \<subseteq> {[], ''required''}" by simp_all
  have p: "Provide expand tag field env = (raw, None)"
  proof (rule prod_eqI)
    show "fst (Provide expand tag field env) = fst (raw, None)"
      using k r by (simp add: Provide_def ko Let_def optsLoop_required_raw)
    show "snd (Provide expand tag field env) = snd (raw, None)"
      using k os by (simp add: Provide_def ko Let_def optsLoop_only_required)
  qed
  have q: "envProvider expand tag field (snd (G, env)) = ((raw, None), env)"
    by (simp add: envProvider_def p)
  have w: "doParseField E field v funcMap (envProvider expand tag) (G, env) =
          (case set_field E v field raw funcMap of (v1, err) \<Rightarrow> ((G, env), v1, err))"
    if "exported field" "\<not> (kind_of (ftype field) = KPtr \<and> v \<noteq> VNil)"
      "\<not> (kind_of (ftype field) = KStruct \<and> tname (ftype field) = [])" "raw \<noteq> []"
    using that q doParseField_resolved [where f = field and v = v and provider = "envProvider expand tag"
        and st = "(G, env)" and str = raw and ?w1.0 = env and E = E and funcMap = funcMap]
    by simp
  have sf: "set_field E v field raw funcMap = (VStr raw, None)"
    if "kind_of (ftype field) = KString" "textUnmarshalers E (TPtr [] (ftype field)) = None"
      "funcMap (ftype field) = None"
    using that
    by (simp add: set_field_def asTextUnmarshaler_def defaultBuiltInParsers_def Convert_def
        basicKind_def)
  show ?thesis
    using p w sf by auto
qed

theorem Provide_required_returns_raw_witness:
  "set (snd (parseKeyForOption (Tag_Get (ftag dirField) ''env''))) \<subseteq> {[], ''required''}
   \<and> ''required'' \<in> set (snd (parseKeyForOption (Tag_Get (ftag dirField) ''env'')))
   \<and> dirEnv (fst (parseKeyForOption (Tag_Get (ftag dirField) ''env''))) = Some ''${HOME}/tmp''
   \<and> expandHome dirEnv ''${HOME}/tmp'' = ''/root/tmp''
   \<and> Provide expandHome ''env'' dirField dirEnv = (''${HOME}/tmp'', None)
   \<and> doParseField exampleEnv dirField (VStr []) (defaultTypeParsers exampleEnv)
        (envProvider expandHome ''env'') (defaultTypeParsers exampleEnv, dirEnv) =
        ((defaultTypeParsers exampleEnv, dirEnv), VStr ''${HOME}/tmp'', None)
   \<and> snd (Parse exampleEnv (TPtr [] dirCfgT) (VPtr (VStruct [VStr []]))
        [envProvider expandHome ''env''] (defaultTypeParsers exampleEnv, dirEnv)) =
        (VPtr (VStruct [VStr ''${HOME}/tmp'']), None)"
proof -
  have pk: "parseKeyForOption (Tag_Get (ftag dirField) ''env'') = (''DIR'', [''required''])"
    by (simp add: dirField_def Tag_Get_def parseKeyForOption_def Split_def)
  have h1: "set (snd (parseKeyForOption (Tag_Get (ftag dirField) ''env''))) \<subseteq> {[], ''required''}"
    by (simp add: pk)
  have h2: "''required'' \<in> set (snd (parseKeyForOption (Tag_Get (ftag dirField) ''env'')))"
    by (simp add: pk)
  have h3: "dirEnv (fst (parseKeyForOption (Tag_Get (ftag dirField) ''env''))) = Some ''${HOME}/tmp''"
    by (simp add: pk dirEnv_def)
  have f: "exported dirField" "kind_of (ftype dirField) = KString"
    "textUnmarshalers exampleEnv (TPtr [] (ftype dirField)) = None"
    "defaultTypeParsers exampleEnv (ftype dirField) = None"
    by (simp_all add: dirField_def stringT_def exampleEnv_def defaultTypeParsers_def durationType_def)
  note t = Provide_required_returns_raw [where field = dirField and tag = "''env''" and env = dirEnv
      and raw = "''${HOME}/tmp''" and expand = expandHome and v = "VStr []" and E = exampleEnv
      and funcMap = "defaultTypeParsers exampleEnv" and G = "defaultTypeParsers exampleEnv",
      OF h1 h2 h3]
  from t have p: "Provide expandHome ''env'' dirField dirEnv = (''${HOME}/tmp'', None)" by simp
  from conjunct2 [OF conjunct2 [OF t]] f have d: "doParseField exampleEnv dirField (VStr []) (defaultTypeParsers exampleEnv)
        (envProvider expandHome ''env'') (defaultTypeParsers exampleEnv, dirEnv) =
        ((defaultTypeParsers exampleEnv, dirEnv), VStr ''${HOME}/tmp'', None)" by simp
  have e: "expandHome dirEnv ''${HOME}/tmp'' = ''/root/tmp''"
    by (simp add: expandHome_def dirEnv_def)
  have w: "snd (Parse exampleEnv (TPtr [] dirCfgT) (VPtr (VStruct [VStr []]))
        [envProvider expandHome ''env''] (defaultTypeParsers exampleEnv, dirEnv)) =
        (VPtr (VStruct [VStr ''${HOME}/tmp'']), None)"
    using d by (simp add: dirCfgT_def ParseWithFuncs.simps)
  show ?thesis using h1 h2 h3 e p d w by simp
qed

section \<open>The walk and the package variable\<close>

text \<open>The call of \<open>Parse\<close> with one provider is the one call of \<open>ParseWithFuncs\<close> that
  \<open>doParseField\<close> makes for a struct of unnamed type.\<close>

lemma Parse_single:
  "Parse E t v [p] st = ParseWithFuncs E t v Map.empty p st"
  by (simp split: prod.splits option.splits)


lemma map_add_self: "m ++ m = m"
  by (rule ext) (simp add: map_add_def split: option.splits)

text \<open>
  Inside a walk the map handed down is the map the package variable refers to, so the
  nested calls (which merge the map they are given into the variable again, or an
  empty map for a struct of unnamed type) find the same map and leave it as it is.
\<close>

lemma walk_refines:
  "(fst st ++ fm = fst st \<longrightarrow>
      ParseWithFuncs E t v fm provider st =
        (case walk_ptr E (fst st) provider t v (snd st) of
           (w1, v1, err) \<Rightarrow> ((fst st, w1), v1, err)))"
  "(fst st = fm \<longrightarrow>
      doParse E fs vs fm provider st =
        (case walk E fm provider fs vs (snd st) of
           (w1, vs1, err) \<Rightarrow> ((fm, w1), vs1, err)))"
  "(fst st = fm \<longrightarrow>
      doParseField E f v0 fm provider st =
        (case walk_field E fm provider f v0 (snd st) of
           (w1, v1, err) \<Rightarrow> ((fm, w1), v1, err)))"
proof (induction E t v fm provider st and E fs vs fm provider st and E f v0 fm provider st
    rule: ParseWithFuncs_doParse_doParseField.induct)
  case (1 E t v funcMap provider st)
  then show ?case
    apply (subst ParseWithFuncs.simps)
    apply (subst walk_ptr.simps)
    apply (auto split: gotype.splits gval.splits prod.splits simp: Let_def)
    done
next
  case (2 E vs funcMap provider st)
  then show ?case by auto
next
  case (3 E f fs funcMap provider st)
  then show ?case by auto
next
  case (4 E f fs v vs funcMap provider st)
  show ?case
  proof
    assume g: "fst st = funcMap"
    obtain w1 v1 e1 where wf: "walk_field E funcMap provider f v (snd st) = (w1, v1, e1)"
      by (cases "walk_field E funcMap provider f v (snd st)")
    with "4.IH"(1) g have df: "doParseField E f v funcMap provider st = ((funcMap, w1), v1, e1)"
      by simp
    show "doParse E (f # fs) (v # vs) funcMap provider st =
        (case walk E funcMap provider (f # fs) (v # vs) (snd st) of
           (w1, vs1, err) \<Rightarrow> ((funcMap, w1), vs1, err))"
    proof (cases e1)
      case None
      from "4.IH"(2) [of "(funcMap, w1)" "(v1, None)" v1 None] df None
      have "doParse E fs vs funcMap provider (funcMap, w1) =
        (case walk E funcMap provider fs vs w1 of
           (w2, vs2, err) \<Rightarrow> ((funcMap, w2), vs2, err))"
        by simp
      then show ?thesis using df wf None
        by (simp split: prod.splits)
    next
      case (Some e)
      then show ?thesis using df wf by simp
    qed
  qed
next
  case (5 E f v funcMap provider st)
  show ?case
  proof
    assume g: "fst st = funcMap"
    then obtain w where st: "st = (funcMap, w)" by (cases st) auto
    show "doParseField E f v funcMap provider st =
        (case walk_field E funcMap provider f v (snd st) of
           (w1, v1, err) \<Rightarrow> ((funcMap, w1), v1, err))"
      apply (subst doParseField.simps)
      apply (subst walk_field.simps)
      using "5.IH" st
      apply (auto simp: CanSet_def map_add_self
          split: prod.splits option.splits gotype.splits gval.splits)
      done
  qed
qed

lemmas example_defs = exampleEnv_def constProvider_def intT_def ptrCfgT_def intCfgT_def
  emptyCfgT_def always42_def defaultTypeParsers_def durationType_def

lemmas walk_simps = ParseWithFuncs.simps doParseField.simps CanSet_def set_field_def
  asTextUnmarshaler_def defaultBuiltInParsers_def intParser_def ParseInt_def ParseUint_def
  isDigit_def digitVal_def Convert_def SetValue_def basicKind_def zeroPrim_def
  newParseError_def

text \<open>A call on a pointer to a struct, with the package variable at \<open>G\<close>, is the walk
  with the one map \<open>G ++ custom\<close> at every depth, and it leaves the variable at that
  map.\<close>

lemma ParseWithFuncs_walk:
  "ParseWithFuncs E (TPtr n (TStruct m fs)) (VPtr (VStruct vs)) custom provider (G, w) =
     (case walk E (G ++ custom) provider fs vs w of
        (w1, vs1, err) \<Rightarrow> ((G ++ custom, w1), VPtr (VStruct vs1), err))"
proof -
  have "doParse E fs vs (G ++ custom) provider (G ++ custom, w) =
      (case walk E (G ++ custom) provider fs vs w of
         (w1, vs1, err) \<Rightarrow> ((G ++ custom, w1), vs1, err))"
    using walk_refines(2) [of "(G ++ custom, w)" "G ++ custom" E fs vs provider] by simp
  then show ?thesis
    by (simp add: ParseWithFuncs.simps split: prod.splits)
qed

text \<open>Within one call the custom parser reaches a field of unnamed struct type and the
  target of a non-nil pointer to a struct.\<close>

lemma ParseWithFuncs_nested:
  "ParseWithFuncs exampleEnv (TPtr [] nestedCfgT)
     (VPtr (VStruct [VInt 0, VStruct [VInt 0], VPtr (VStruct [VInt 0])]))
     always42 (constProvider ''5'') (defaultTypeParsers exampleEnv, 0) =
   ((defaultTypeParsers exampleEnv ++ always42, 3),
    VPtr (VStruct [VInt 42, VStruct [VInt 42], VPtr (VStruct [VInt 42])]), None)"
  using ParseWithFuncs_walk [of exampleEnv "[]" "''Nested''"
      "[SField ''N'' intT [(''env'', ''N'')] True,
      SField ''Inner'' (TStruct [] [SField ''M'' intT [(''env'', ''M'')] True]) [] True,
      SField ''Ref'' (TPtr [] (TStruct ''Leaf'' [SField ''K'' intT [(''env'', ''K'')] True])) [] True]"
      "[VInt 0, VStruct [VInt 0], VPtr (VStruct [VInt 0])]" always42 "constProvider ''5''"
      "defaultTypeParsers exampleEnv" 0]
  by (simp add: nestedCfgT_def walk_ptr.simps walk_field.simps walk_simps example_defs)

text \<open>
  C3. The claim: the map a call uses, at every depth, is the caller's custom map merged
  over the built-in type-specific map. The map a call uses is the custom map merged
  over whatever the package variable holds, and the variable keeps the custom entries
  of earlier calls. After a call with a custom parser for \<open>int\<close>, a
  call on \<open>struct { N int; S string }\<close> with a custom parser for \<open>string\<close> only
  converts \<open>N\<close> with the earlier call's parser (42), where the walk with the custom
  map merged over the built-in map gives 5. (A field of unnamed struct type is walked
  through \<open>Parse\<close> with an empty custom map: it finds the custom entries only because
  they were written into the package variable.)
\<close>

theorem later_call_uses_leaked_parser:
  "(case ParseWithFuncs exampleEnv (TPtr [] emptyCfgT) (VPtr (VStruct [])) always42
           (constProvider ''5'') (defaultTypeParsers exampleEnv, 0) of
      (st1, v1, err1) \<Rightarrow>
        snd (ParseWithFuncs exampleEnv (TPtr [] pairCfgT) (VPtr (VStruct [VInt 0, VStr []]))
               customString (constProvider ''5'') st1)
          = (VPtr (VStruct [VInt 42, VStr ''custom'']), None))
   \<and> walk exampleEnv (defaultTypeParsers exampleEnv ++ customString) (constProvider ''5'')
        pairFields [VInt 0, VStr []] 0 = (2, [VInt 5, VStr ''custom''], None)"
  by (simp add: walk_simps example_defs walk_field.simps pairCfgT_def pairFields_def
      stringT_def customString_def)

text \<open>
  C2. The claim: a call with a custom parser map leaves the shared default map as it
  was. \<open>ParseWithFuncs\<close> assigns the package variable to \<open>parsers\<close> (a Go map is a
  reference) and writes the custom entries into it. Here the default map has no parser
  for \<open>int\<close>; after a call with a custom parser for \<open>int\<close> on an empty struct it has
  one, and a later \<open>Parse\<close> without custom parsers sets an \<open>int\<close> field to the custom
  parser's 42 although the provider said 5.
\<close>

theorem default_map_mutated:
  "defaultTypeParsers exampleEnv intT = None \<and>
   (case ParseWithFuncs exampleEnv (TPtr [] emptyCfgT) (VPtr (VStruct [])) always42
           (constProvider ''5'') (defaultTypeParsers exampleEnv, 0) of
      (st1, v1, err1) \<Rightarrow>
        err1 = None \<and>
        map_option (\<lambda>p. p ''5'') (fst st1 intT) = Some (Inr (Dyn intT (VInt 42))) \<and>
        snd (Parse exampleEnv (TPtr [] intCfgT) (VPtr (VStruct [VInt 0])) [constProvider ''5''] st1)
          = (VPtr (VStruct [VInt 42]), None))"
  by (simp add: walk_simps example_defs)

text \<open>
  C4. The claim: for an argument that is not a pointer to a struct, \<open>Parse\<close> fails with
  \<open>ErrNotAStructPtr\<close> for every list of providers. The check is made by
  \<open>ParseWithFuncs\<close>, once per provider: with no provider nothing is checked and
  \<open>Parse\<close> returns no error.
\<close>

theorem Parse_no_provider_accepts_anything:
  "Parse E (TPrim ''int'' KInt) (VInt 42) [] st = (st, VInt 42, None)"
  by simp

text \<open>With at least one provider the argument is rejected before the provider is asked:
  the state, which holds the provider's world, and the argument are unchanged.\<close>

lemma ParseWithFuncs_rejects:
  "\<not> (\<exists>n m fs vs. t = TPtr n (TStruct m fs) \<and> v = VPtr (VStruct vs)) \<Longrightarrow>
   ParseWithFuncs E t v funcMap provider st = (st, v, Some ErrNotAStructPtr)"
  by (auto simp: ParseWithFuncs.simps split: gotype.splits gval.splits)

lemma Parse_rejects:
  "\<not> (\<exists>n m fs vs. t = TPtr n (TStruct m fs) \<and> v = VPtr (VStruct vs)) \<Longrightarrow>
   Parse E t v (p # ps) st = (st, v, Some ErrNotAStructPtr)"
  by (simp add: ParseWithFuncs_rejects)

text \<open>
  C5. The claim: a non-nil pointer whose pointee is not a struct is resolved through the
  provider like any other field. \<open>doParse\<close> hands every non-nil pointer field to
  \<open>ParseWithFuncs\<close>, which rejects a pointee that is not a struct: for
  \<open>struct { P *int `env:"X"` }\<close> with \<open>P\<close> pointing to 7 the walk returns
  \<open>ErrNotAStructPtr\<close>, and the state is unchanged: the provider was not asked.
\<close>

theorem doParse_non_nil_pointer_to_int_fails:
  "doParse E [SField ''P'' (TPtr [] (TPrim ''int'' KInt)) [(''env'', ''X'')] True] [VPtr (VInt 7)]
     funcMap provider st = (st, [VPtr (VInt 7)], Some ErrNotAStructPtr)"
  by (simp add: walk_simps)

text \<open>The same for every settable non-nil pointer field whose pointee is not a struct.\<close>

lemma doParseField_pointer_to_non_struct:
  assumes "exported f" and "kind_of (ftype f) = KPtr" and "v \<noteq> VNil"
    and "\<not> (\<exists>n m fs vs. ftype f = TPtr n (TStruct m fs) \<and> v = VPtr (VStruct vs))"
  shows "doParseField E f v funcMap provider st = (st, v, Some ErrNotAStructPtr)"
  using assms by (simp add: doParseField.simps CanSet_def ParseWithFuncs_rejects)

text \<open>
  C7. The claim: when two providers resolve the same field to different values, the
  field ends with the second provider's value. For a field of type \<open>*int\<close> that starts
  nil, the first walk allocates the pointee and stores 1; the second walk finds a
  non-nil pointer whose pointee is not a struct and fails (the defect of C5) after the
  first provider was asked once, and the field still holds 1.
\<close>

theorem Parse_second_provider_fails_on_pointer_field:
  "Parse exampleEnv (TPtr [] ptrCfgT) (VPtr (VStruct [VNil]))
     [constProvider ''1'', constProvider ''2''] (defaultTypeParsers exampleEnv, 0) =
   ((defaultTypeParsers exampleEnv, 1), VPtr (VStruct [VPtr (VInt 1)]), Some ErrNotAStructPtr)"
  by (simp add: walk_simps example_defs)

text \<open>For a field that is not a pointer the second provider's value does replace the
  first's: \<open>struct { N int `env:"N"` }\<close> ends with 2.\<close>

lemma Parse_last_provider_wins_int:
  "Parse exampleEnv (TPtr [] intCfgT) (VPtr (VStruct [VInt 0]))
     [constProvider ''1'', constProvider ''2''] (defaultTypeParsers exampleEnv, 0) =
   ((defaultTypeParsers exampleEnv, 2), VPtr (VStruct [VInt 2]), None)"
  by (simp add: walk_simps example_defs)

text \<open>The order of the walks and the stop at the first error, as the claim says.\<close>

lemma Parse_stops_at_first_error:
  "ParseWithFuncs E t v Map.empty p st = (st1, v1, Some err) \<Longrightarrow>
   Parse E t v (p # ps) st = (st1, v1, Some err)"
  by simp

lemma Parse_continues_in_place:
  "ParseWithFuncs E t v Map.empty p st = (st1, v1, None) \<Longrightarrow>
   Parse E t v (p # ps) st = Parse E t v1 ps st1"
  by simp

section \<open>The conversion policy of set\<close>

text \<open>
  C1. The claim: a struct-typed destination is decoded as JSON when the string is a JSON
  object, and otherwise the no-parser error is returned. The guard of \<open>set\<close> is
  \<open>json.Valid\<close> together with \<open>isJSONObj\<close>, which asks whether the text unmarshals
  into a map; \<open>null\<close> is valid JSON and unmarshals into a map without error, so the
  guard takes \<open>null\<close> for an object. For \<open>struct { Ref Leaf `env:"REF"` }\<close> with
  \<open>Ref\<close> holding \<open>Leaf{K: 9}\<close> and the provider answering \<open>null\<close>, the field is
  overwritten with a zero \<open>Leaf\<close> and no error is returned.
\<close>

theorem set_decodes_null_as_object:
  "set_field jsonNullEnv (VStruct [VInt 9]) refField ''null'' (defaultTypeParsers jsonNullEnv)
     = (VStruct [VInt 0], None)
   \<and> Parse jsonNullEnv (TPtr [] holderT) (VPtr (VStruct [VStruct [VInt 9]]))
       [constProvider ''null''] (defaultTypeParsers jsonNullEnv, 0)
     = ((defaultTypeParsers jsonNullEnv, 1), VPtr (VStruct [VStruct [VInt 0]]), None)"
  by (simp add: walk_simps constProvider_def intT_def defaultTypeParsers_def durationType_def
      jsonNullEnv_def exampleEnv_def refField_def holderT_def leafT_def isJSONObj_def)


section \<open>Slice fields\<close>

lemma splitOn_nonempty: "splitOn sep s acc \<noteq> []"
  by (induction sep s acc rule: splitOn.induct) auto

lemma Split_nonempty: "sep \<noteq> [] \<Longrightarrow> Split s sep \<noteq> []"
  by (simp add: Split_def splitOn_nonempty)

lemma sliceLoop_step:
  "sliceLoop E parserFunc typee isPtr sf (part # parts) =
     (case (case viaParser E sf typee parserFunc part of
              Inl e \<Rightarrow> Inl e
            | Inr x \<Rightarrow> Inr (if isPtr then VPtr x else x)) of
        Inl e \<Rightarrow> Inl e
      | Inr y \<Rightarrow>
          (case sliceLoop E parserFunc typee isPtr sf parts of
             Inl e \<Rightarrow> Inl e
           | Inr xs \<Rightarrow> Inr (y # xs)))"
  by (simp add: viaParser_def split: sum.splits option.splits split del: if_split)

lemma sliceLoop_collect:
  "sliceLoop E parserFunc typee isPtr sf parts =
     collect (map (\<lambda>part. case viaParser E sf typee parserFunc part of
                             Inl e \<Rightarrow> Inl e
                           | Inr x \<Rightarrow> Inr (if isPtr then VPtr x else x)) parts)"
proof (induction parts)
  case Nil
  show ?case by simp
next
  case (Cons part parts)
  show ?case
    unfolding sliceLoop_step Cons.IH by simp
qed

lemma tuLoop_step:
  assumes "t = (if kind_of elemType = KPtr then elem elemType else elemType)"
    and "textUnmarshalers E (TPtr [] t) = Some um"
  shows "tuLoop E elemType sf (part # parts) =
     (case (case um (zero t) part of
              (x, Some err) \<Rightarrow> Inl (ParseError sf err)
            | (x, None) \<Rightarrow> Inr (if kind_of elemType = KPtr then VPtr x else x)) of
        Inl e \<Rightarrow> Inl e
      | Inr y \<Rightarrow>
          (case tuLoop E elemType sf parts of
             Inl e \<Rightarrow> Inl e
           | Inr xs \<Rightarrow> Inr (y # xs)))"
  unfolding tuLoop.simps Let_def assms(1) [symmetric]
  by (simp add: assms(2) split: prod.splits option.splits sum.splits split del: if_split)

lemma tuLoop_collect:
  assumes "t = (if kind_of elemType = KPtr then elem elemType else elemType)"
    and "textUnmarshalers E (TPtr [] t) = Some um"
  shows "tuLoop E elemType sf parts =
     collect (map (\<lambda>part.
        case um (zero t) part of
          (x, Some err) \<Rightarrow> Inl (ParseError sf err)
        | (x, None) \<Rightarrow> Inr (if kind_of elemType = KPtr then VPtr x else x)) parts)"
proof (induction parts)
  case Nil
  show ?case by simp
next
  case (Cons part parts)
  show ?case
    unfolding tuLoop_step [OF assms] Cons.IH by simp
qed

lemma collect_all_Inl: "rs \<noteq> [] \<Longrightarrow> collect (map (\<lambda>x. Inl e) rs) = Inl e"
  by (cases rs) auto

lemma separatorOf_nonempty: "separatorOf sf \<noteq> []"
  by (simp add: separatorOf_def)

lemma handleSlice_collect:
  "handleSlice E old value sf funcMap =
     (case collect (map (convertPart E sf funcMap) (Split value (separatorOf sf))) of
        Inl e \<Rightarrow> (old, Some e)
      | Inr xs \<Rightarrow> (VSlice xs, None))"
proof -
  define isPtr where "isPtr = (kind_of (elem (ftype sf)) = KPtr)"
  define typee where "typee = (if isPtr then elem (elem (ftype sf)) else elem (ftype sf))"
  define parts where "parts = Split value (separatorOf sf)"
  have ne: "parts \<noteq> []" by (simp add: parts_def Split_nonempty separatorOf_nonempty)
  have hs: "handleSlice E old value sf funcMap =
     (if textUnmarshalers E (TPtr [] typee) \<noteq> None
      then parseTextUnmarshalers E old parts sf
      else
        (case (case funcMap typee of
                 Some p \<Rightarrow> Some p
               | None \<Rightarrow> defaultBuiltInParsers E (kind_of typee)) of
           None \<Rightarrow> (old, Some (newNoParserError sf))
         | Some parserFunc \<Rightarrow>
             (case sliceLoop E parserFunc typee isPtr sf parts of
                Inl e \<Rightarrow> (old, Some e)
              | Inr xs \<Rightarrow> (VSlice xs, None))))"
    unfolding isPtr_def typee_def parts_def handleSlice_def separatorOf_def Let_def
    by (rule refl)
  have cp: "convertPart E sf funcMap = (\<lambda>part.
     case (case textUnmarshalers E (TPtr [] typee) of
                 Some um \<Rightarrow>
                   (case um (zero typee) part of
                      (x, Some err) \<Rightarrow> Inl (ParseError sf err)
                    | (x, None) \<Rightarrow> Inr x)
               | None \<Rightarrow>
                   (case funcMap typee of
                      Some parserFunc \<Rightarrow> viaParser E sf typee parserFunc part
                    | None \<Rightarrow>
                        (case defaultBuiltInParsers E (kind_of typee) of
                           Some parserFunc \<Rightarrow> viaParser E sf typee parserFunc part
                         | None \<Rightarrow> Inl (NoParserError sf)))) of
       Inl e \<Rightarrow> Inl e | Inr x \<Rightarrow> Inr (if isPtr then VPtr x else x))"
    unfolding isPtr_def typee_def convertPart_def Let_def
    by (rule refl)
  show ?thesis
  proof (cases "textUnmarshalers E (TPtr [] typee)")
    case (Some um)
    have "tuLoop E (elem (ftype sf)) sf parts =
       collect (map (\<lambda>part.
        case um (zero typee) part of
          (x, Some err) \<Rightarrow> Inl (ParseError sf err)
        | (x, None) \<Rightarrow> Inr (if kind_of (elem (ftype sf)) = KPtr then VPtr x else x)) parts)"
      using Some by (intro tuLoop_collect) (simp_all add: typee_def isPtr_def)
    moreover have "convertPart E sf funcMap = (\<lambda>part.
        case um (zero typee) part of
          (x, Some err) \<Rightarrow> Inl (ParseError sf err)
        | (x, None) \<Rightarrow> Inr (if kind_of (elem (ftype sf)) = KPtr then VPtr x else x))"
      by (rule ext) (simp add: cp Some isPtr_def split: prod.splits option.splits)
    ultimately show ?thesis
      using Some by (simp add: hs parseTextUnmarshalers_def parts_def)
  next
    case noTU: None
    show ?thesis
    proof (cases "case funcMap typee of Some p \<Rightarrow> Some p
                  | None \<Rightarrow> defaultBuiltInParsers E (kind_of typee)")
      case None
      then have "convertPart E sf funcMap = (\<lambda>part. Inl (NoParserError sf))"
        using noTU by (intro ext) (simp add: cp split: option.splits)
      then have "collect (map (convertPart E sf funcMap) parts) = Inl (NoParserError sf)"
        using ne by (simp add: collect_all_Inl)
      then show ?thesis using None noTU
        by (simp add: hs newNoParserError_def parts_def)
    next
      case (Some parserFunc)
      then have "convertPart E sf funcMap = (\<lambda>part.
          case viaParser E sf typee parserFunc part of
            Inl e \<Rightarrow> Inl e
          | Inr x \<Rightarrow> Inr (if isPtr then VPtr x else x))"
        using noTU by (intro ext) (simp add: cp split: option.splits)
      then show ?thesis using Some noTU
        by (simp add: hs sliceLoop_collect parts_def)
    qed
  qed
qed

text \<open>
  C8. For a slice field that the walk resolves to a non-empty string, the loop body
  splits the string on the field's separator (a comma when the tag gives none),
  converts each part on its own and, when every part converts, stores the results in
  order as the new slice, whatever the slice held before; when a part fails the field
  keeps its value and the first error is returned. That is what \<open>set\<close> does with a
  slice field, and the loop body calls \<open>set\<close> exactly then. When the provider
  answers the empty string, or the field cannot be set, the loop body leaves the field
  as it is.
\<close>

theorem slice_field_replaced:
  assumes "kind_of (ftype sf) = KSlice"
  shows "set_field E old sf str funcMap =
       (case collect (map (convertPart E sf funcMap) (Split str (separatorOf sf))) of
          Inl e \<Rightarrow> (old, Some e)
        | Inr xs \<Rightarrow> (VSlice xs, None))
     \<and> (exported sf \<and> provider sf (snd st) = ((str, None), w1) \<longrightarrow>
          doParseField E sf old funcMap provider st =
            (if str = [] then ((fst st, w1), old, None)
             else (case collect (map (convertPart E sf funcMap) (Split str (separatorOf sf))) of
                     Inl e \<Rightarrow> ((fst st, w1), old, Some e)
                   | Inr xs \<Rightarrow> ((fst st, w1), VSlice xs, None))))
     \<and> (\<not> exported sf \<longrightarrow> doParseField E sf old funcMap provider st = (st, old, None))"
proof (intro conjI impI)
  show s: "set_field E old sf str funcMap =
       (case collect (map (convertPart E sf funcMap) (Split str (separatorOf sf))) of
          Inl e \<Rightarrow> (old, Some e)
        | Inr xs \<Rightarrow> (VSlice xs, None))"
    using assms by (simp add: set_field_def handleSlice_collect)
  show "doParseField E sf old funcMap provider st = (st, old, None)" if "\<not> exported sf"
    using that by (simp add: doParseField.simps CanSet_def)
  assume a: "exported sf \<and> provider sf (snd st) = ((str, None), w1)"
  show "doParseField E sf old funcMap provider st =
            (if str = [] then ((fst st, w1), old, None)
             else (case collect (map (convertPart E sf funcMap) (Split str (separatorOf sf))) of
                     Inl e \<Rightarrow> ((fst st, w1), old, Some e)
                   | Inr xs \<Rightarrow> ((fst st, w1), VSlice xs, None)))"
  proof (cases "str = []")
    case True
    then show ?thesis
      using a assms by (cases "ftype sf") (simp_all add: doParseField.simps CanSet_def)
  next
    case False
    have "doParseField E sf old funcMap provider st =
        (case set_field E old sf str funcMap of (v1, err) \<Rightarrow> ((fst st, w1), v1, err))"
      using a assms False
      by (intro doParseField_resolved) simp_all
    then show ?thesis
      using False by (simp add: s split: sum.splits)
  qed
qed

theorem slice_field_replaced_witness:
  "kind_of (ftype hostsField) = KSlice
   \<and> set_field exampleEnv (VSlice [VStr ''old'']) hostsField ''h1:h2'' Map.empty
       = (VSlice [VStr ''h1'', VStr ''h2''], None)
   \<and> doParseField exampleEnv hostsField (VSlice [VStr ''old'']) Map.empty
        (constProvider ''h1:h2'') (Map.empty, 0)
       = ((Map.empty, 1), VSlice [VStr ''h1'', VStr ''h2''], None)
   \<and> doParseField exampleEnv hostsField (VSlice [VStr ''old'']) Map.empty
        (constProvider []) (Map.empty, 0) = ((Map.empty, 1), VSlice [VStr ''old''], None)
   \<and> snd (Parse exampleEnv (TPtr [] hostsCfgT) (VPtr (VStruct [VSlice [VStr ''old'']]))
        [constProvider ''h1:h2''] (Map.empty, 0))
       = (VPtr (VStruct [VSlice [VStr ''h1'', VStr ''h2'']]), None)"
proof -
  have k: "kind_of (ftype hostsField) = KSlice" by (simp add: hostsField_def)
  have ex: "exported hostsField" by (simp add: hostsField_def)
  have c: "collect (map (convertPart exampleEnv hostsField Map.empty)
             (Split ''h1:h2'' (separatorOf hostsField))) = Inr [VStr ''h1'', VStr ''h2'']"
    by (simp add: hostsField_def separatorOf_def Tag_Get_def Split_def convertPart_def
        exampleEnv_def defaultBuiltInParsers_def viaParser_def Convert_def basicKind_def)
  note t1 = slice_field_replaced [OF k, where E = exampleEnv and old = "VSlice [VStr ''old'']"
      and str = "''h1:h2''" and funcMap = Map.empty and provider = "constProvider ''h1:h2''"
      and st = "(Map.empty, 0)" and ?w1.0 = 1]
  note t2 = slice_field_replaced [OF k, where E = exampleEnv and old = "VSlice [VStr ''old'']"
      and str = "[]" and funcMap = Map.empty and provider = "constProvider []"
      and st = "(Map.empty, 0)" and ?w1.0 = 1]
  have s: "set_field exampleEnv (VSlice [VStr ''old'']) hostsField ''h1:h2'' Map.empty
       = (VSlice [VStr ''h1'', VStr ''h2''], None)"
    using conjunct1 [OF t1] by (simp add: c)
  have d1: "doParseField exampleEnv hostsField (VSlice [VStr ''old'']) Map.empty
        (constProvider ''h1:h2'') (Map.empty, 0)
       = ((Map.empty, 1), VSlice [VStr ''h1'', VStr ''h2''], None)"
    using conjunct1 [OF conjunct2 [OF t1]] ex by (simp add: c constProvider_def)
  have d2: "doParseField exampleEnv hostsField (VSlice [VStr ''old'']) Map.empty
        (constProvider []) (Map.empty, 0) = ((Map.empty, 1), VSlice [VStr ''old''], None)"
    using conjunct1 [OF conjunct2 [OF t2]] ex by (simp add: constProvider_def)
  have w: "snd (Parse exampleEnv (TPtr [] hostsCfgT) (VPtr (VStruct [VSlice [VStr ''old'']]))
        [constProvider ''h1:h2''] (Map.empty, 0))
       = (VPtr (VStruct [VSlice [VStr ''h1'', VStr ''h2'']]), None)"
    using d1 by (simp add: hostsCfgT_def ParseWithFuncs.simps)
  show ?thesis using k s d1 d2 w by simp
qed

section \<open>Numeric fields\<close>

lemma asTextUnmarshaler_unfold:
  "asTextUnmarshaler E (ftype sf) field =
     (allocated sf field,
      case unmarshalerOf E sf of
        None \<Rightarrow> None
      | Some um \<Rightarrow>
          Some (\<lambda>text. case um (if kind_of (ftype sf) = KPtr then deref (allocated sf field) else field) text of
                         (x, err) \<Rightarrow> (store sf x, err)))"
  by (simp add: asTextUnmarshaler_def allocated_def unmarshalerOf_def store_def Let_def
      split: option.splits)


lemma set_field_dest_builtin:
  assumes "kind_of (ftype sf) \<noteq> KSlice"
    and "unmarshalerOf E sf = None"
    and "funcMap (destType sf) = None"
    and "defaultBuiltInParsers E (kind_of (destType sf)) = Some parserFunc"
  shows "set_field E old sf value funcMap =
     (case parserFunc value of
        Inl err \<Rightarrow> (allocated sf old, Some (ParseError sf err))
      | Inr val \<Rightarrow>
          (case Convert E val (destType sf) of
             None \<Rightarrow> (allocated sf old, Some Panic)
           | Some x \<Rightarrow> (store sf x, None)))"
  using assms
  by (simp add: set_field_def asTextUnmarshaler_unfold newParseError_def
      destType_def store_def Let_def split: sum.splits option.splits)
declare decimal.simps [simp del]

lemma of_char_digitChar: "d < 10 \<Longrightarrow> (of_char (digitChar d) :: nat) = 48 + d"
proof -
  assume "d < 10"
  then consider "d = 0" | "d = 1" | "d = 2" | "d = 3" | "d = 4" | "d = 5" | "d = 6"
    | "d = 7" | "d = 8" | "d = 9"
    by atomize_elim arith
  then show ?thesis
    by cases (simp_all add: digitChar_def)
qed

lemma isDigit_digitChar: "d < 10 \<Longrightarrow> isDigit (digitChar d)"
  by (simp add: isDigit_def of_char_digitChar)

lemma digitVal_digitChar: "d < 10 \<Longrightarrow> digitVal (digitChar d) = d"
  by (simp add: digitVal_def of_char_digitChar)

lemma parseUintLoop_snoc:
  "parseUintLoop maxVal (s @ [c]) acc =
     (case parseUintLoop maxVal s acc of
        Inl e \<Rightarrow> Inl e
      | Inr m \<Rightarrow>
          if \<not> isDigit c then Inl SyntaxError
          else if maxVal < m * 10 + digitVal c then Inl RangeError
          else Inr (m * 10 + digitVal c))"
  by (induction s arbitrary: acc) auto

lemma parseUintLoop_decimal:
  "parseUintLoop maxVal (decimal n) 0 = (if n \<le> maxVal then Inr n else Inl RangeError)"
proof (induction n rule: decimal.induct)
  case (1 n)
  show ?case
  proof (cases "n < 10")
    case True
    then show ?thesis
      by (subst decimal.simps) (simp add: isDigit_digitChar digitVal_digitChar)
  next
    case False
    have d: "n mod 10 < 10" by simp
    have split: "n div 10 * 10 + n mod 10 = n" by simp
    have le: "n div 10 \<le> n" by simp
    show ?thesis
      using False "1.IH" [OF False] le
      by (subst decimal.simps)
        (auto simp: parseUintLoop_snoc isDigit_digitChar [OF d] digitVal_digitChar [OF d] split)
  qed
qed

lemma decimal_Cons: "\<exists>c cs. decimal n = c # cs \<and> isDigit c"
proof (induction n rule: decimal.induct)
  case (1 n)
  show ?case
  proof (cases "n < 10")
    case True
    then show ?thesis by (subst decimal.simps) (simp add: isDigit_digitChar)
  next
    case False
    with "1.IH" obtain c cs where "decimal (n div 10) = c # cs" "isDigit c" by blast
    then show ?thesis using False by (subst decimal.simps) simp
  qed
qed

lemma ParseUint_decimal:
  "ParseUint (decimal n) bits = (if n < 2 ^ bits then Inr n else Inl RangeError)"
proof -
  obtain c cs where "decimal n = c # cs" using decimal_Cons by blast
  then have ne: "decimal n \<noteq> []" by simp
  have "(n \<le> 2 ^ bits - 1) = (n < (2::nat) ^ bits)"
    by (metis Suc_pred' less_Suc_eq_le zero_less_numeral zero_less_power)
  then show ?thesis
    by (simp add: ParseUint_def ne parseUintLoop_decimal)
qed

lemma ParseUint_minus: "ParseUint (CHR ''-'' # s) bits = Inl SyntaxError"
  by (simp add: ParseUint_def isDigit_def)

lemma ParseInt_literal:
  assumes "0 < bits"
  shows "ParseInt (literal i) bits = (if fits True bits i then Inr i else Inl RangeError)"
proof -
  define c where "c = (2::nat) ^ (bits - 1)"
  have pn: "(2::nat) ^ bits = 2 * c"
    using assms by (cases bits) (simp_all add: c_def)
  have pc: "(2::int) ^ (bits - 1) = int c"
    by (simp add: c_def)
  have c0: "0 < c" by (simp add: c_def)
  show ?thesis
  proof (cases "i < 0")
    case True
    define un where "un = nat (- i)"
    have i: "i = - int un" using True by (simp add: un_def)
    have pu: "ParseUint (decimal un) bits = (if un < 2 * c then Inr un else Inl RangeError)"
      by (simp add: ParseUint_decimal pn)
    have "ParseInt (literal i) bits =
        (case ParseUint (decimal un) bits of
           Inl e \<Rightarrow> Inl e
         | Inr u \<Rightarrow> if c < u then Inl RangeError else Inr (- int u))"
      using True by (simp add: literal_def ParseInt_def un_def c_def Let_def split: sum.splits)
    moreover have "fits True bits i = (un \<le> c)"
      using True c0 unfolding fits_def pc i by auto
    ultimately show ?thesis
      using c0 by (auto simp: pu i)
  next
    case False
    define un where "un = nat i"
    have i: "i = int un" using False by (simp add: un_def)
    obtain d ds where d: "decimal un = d # ds" and dd: "isDigit d"
      using decimal_Cons by blast
    have nd: "d \<noteq> CHR ''+''" "d \<noteq> CHR ''-''" using dd by (auto simp: isDigit_def)
    have pu: "ParseUint (d # ds) bits = (if un < 2 * c then Inr un else Inl RangeError)"
      using ParseUint_decimal [of un bits] by (simp add: pn d)
    have "ParseInt (literal i) bits =
        (case ParseUint (d # ds) bits of
           Inl e \<Rightarrow> Inl e
         | Inr u \<Rightarrow> if c \<le> u then Inl RangeError else Inr (int u))"
      using False nd
      by (simp add: literal_def ParseInt_def un_def [symmetric] d c_def Let_def split: sum.splits)
    moreover have "fits True bits i = (un < c)"
      unfolding fits_def pc i by auto
    ultimately show ?thesis
      using c0 by (auto simp: pu i)
  qed
qed

lemma uint_literal:
  "ParseUint (literal i) bits =
     (if fits False bits i then Inr (nat i)
      else Inl (if i < 0 then SyntaxError else RangeError))"
proof (cases "i < 0")
  case True
  then show ?thesis
    by (simp add: literal_def ParseUint_minus fits_def)
next
  case False
  have "(nat i < 2 ^ bits) = (i < 2 ^ bits)" using False
    by (metis nat_less_iff not_less of_nat_numeral of_nat_power)
  then show ?thesis using False
    by (simp add: literal_def ParseUint_decimal fits_def)
qed

lemma builtin_parsers:
  "defaultBuiltInParsers E KInt = Some (intParser 32 (TPrim ''int'' KInt))"
  "defaultBuiltInParsers E KInt8 = Some (intParser 8 (TPrim ''int8'' KInt8))"
  "defaultBuiltInParsers E KInt16 = Some (intParser 16 (TPrim ''int16'' KInt16))"
  "defaultBuiltInParsers E KInt32 = Some (intParser 32 (TPrim ''int32'' KInt32))"
  "defaultBuiltInParsers E KInt64 = Some (intParser 64 (TPrim ''int64'' KInt64))"
  "defaultBuiltInParsers E KUint = Some (uintParser 32 (TPrim ''uint'' KUint))"
  "defaultBuiltInParsers E KUint8 = Some (uintParser 8 (TPrim ''uint8'' KUint8))"
  "defaultBuiltInParsers E KUint16 = Some (uintParser 16 (TPrim ''uint16'' KUint16))"
  "defaultBuiltInParsers E KUint32 = Some (uintParser 32 (TPrim ''uint32'' KUint32))"
  "defaultBuiltInParsers E KUint64 = Some (uintParser 64 (TPrim ''uint64'' KUint64))"
  "defaultBuiltInParsers E KFloat32 = Some (floatParser E 32 (TPrim ''float32'' KFloat32))"
  "defaultBuiltInParsers E KFloat64 = Some (floatParser E 64 (TPrim ''float64'' KFloat64))"
  by (simp_all add: defaultBuiltInParsers_def)

lemma parserBits_sized:
  "k \<noteq> KInt \<Longrightarrow> k \<noteq> KUint \<Longrightarrow> parserBits k = typeBits intSize k"
  by (simp add: parserBits_def typeBits_def)

lemma parser_bits:
  "parserBits KInt = 32" "parserBits KInt8 = 8" "parserBits KInt16 = 16"
  "parserBits KInt32 = 32" "parserBits KInt64 = 64"
  "parserBits KUint = 32" "parserBits KUint8 = 8" "parserBits KUint16 = 16"
  "parserBits KUint32 = 32" "parserBits KUint64 = 64"
  "parserBits KFloat32 = 32" "parserBits KFloat64 = 64"
  by (simp_all add: parserBits_def typeBits_def)


lemma set_field_numeric:
  assumes "kind_of (destType sf) = k" and "basicKind k"
    and "unmarshalerOf E sf = None"
    and "funcMap (destType sf) = None"
    and "defaultBuiltInParsers E k = Some parserFunc"
  shows "set_field E old sf str funcMap =
     (case parserFunc str of
        Inl err \<Rightarrow> (allocated sf old, Some (ParseError sf err))
      | Inr val \<Rightarrow>
          (case Convert E val (destType sf) of
             None \<Rightarrow> (allocated sf old, Some Panic)
           | Some x \<Rightarrow> (store sf x, None)))"
proof -
  have "kind_of (ftype sf) \<noteq> KSlice"
  proof
    assume "kind_of (ftype sf) = KSlice"
    then have "k = KSlice" using assms(1) by (simp add: destType_def)
    then show False using assms(2) by (simp add: basicKind_def)
  qed
  then show ?thesis
    using assms by (intro set_field_dest_builtin) simp_all
qed

lemma Convert_same_kind:
  "kind_of t0 = kind_of t \<Longrightarrow> basicKind (kind_of t) \<Longrightarrow> Convert E (Dyn t0 x) t = Some x"
  by (simp add: Convert_def)

lemma set_field_int:
  assumes "kind_of (destType sf) = k" and "basicKind k"
    and "unmarshalerOf E sf = None"
    and "funcMap (destType sf) = None"
    and "defaultBuiltInParsers E k = Some (intParser bits t0)"
    and "kind_of t0 = k" and "0 < bits"
  shows "set_field E old sf (literal i) funcMap =
      (if fits True bits i then (store sf (VInt i), None)
       else (allocated sf old, Some (ParseError sf RangeError)))"
proof -
  have c: "Convert E (Dyn t0 x) (destType sf) = Some x" for x
    using assms by (intro Convert_same_kind) simp_all
  have "set_field E old sf (literal i) funcMap =
     (case intParser bits t0 (literal i) of
        Inl err \<Rightarrow> (allocated sf old, Some (ParseError sf err))
      | Inr val \<Rightarrow>
          (case Convert E val (destType sf) of
             None \<Rightarrow> (allocated sf old, Some Panic)
           | Some x \<Rightarrow> (store sf x, None)))"
    using assms by (intro set_field_numeric) simp_all
  then show ?thesis
    using assms(7) by (simp add: intParser_def ParseInt_literal c)
qed

lemma set_field_uint:
  assumes "kind_of (destType sf) = k" and "basicKind k"
    and "unmarshalerOf E sf = None"
    and "funcMap (destType sf) = None"
    and "defaultBuiltInParsers E k = Some (uintParser bits t0)"
    and "kind_of t0 = k"
  shows "set_field E old sf (literal i) funcMap =
      (if fits False bits i then (store sf (VInt i), None)
       else (allocated sf old,
             Some (ParseError sf (if i < 0 then SyntaxError else RangeError))))"
proof -
  have c: "Convert E (Dyn t0 x) (destType sf) = Some x" for x
    using assms by (intro Convert_same_kind) simp_all
  have "fits False bits i \<Longrightarrow> int (nat i) = i"
    by (simp add: fits_def)
  moreover have "set_field E old sf (literal i) funcMap =
     (case uintParser bits t0 (literal i) of
        Inl err \<Rightarrow> (allocated sf old, Some (ParseError sf err))
      | Inr val \<Rightarrow>
          (case Convert E val (destType sf) of
             None \<Rightarrow> (allocated sf old, Some Panic)
           | Some x \<Rightarrow> (store sf x, None)))"
    using assms by (intro set_field_numeric) simp_all
  ultimately show ?thesis
    by (simp add: uintParser_def uint_literal c)
qed

lemma readDigits_snoc:
  "readDigits a (s @ [c]) =
     (case readDigits a s of
        None \<Rightarrow> None
      | Some m \<Rightarrow> if isDigit c then Some (m * 10 + digitVal c) else None)"
  by (induction s arbitrary: a) auto

lemma readDigits_decimal: "readDigits 0 (decimal n) = Some n"
proof (induction n rule: decimal.induct)
  case (1 n)
  show ?case
  proof (cases "n < 10")
    case True
    then show ?thesis
      by (subst decimal.simps) (simp add: isDigit_digitChar digitVal_digitChar)
  next
    case False
    have d: "n mod 10 < 10" by simp
    show ?thesis
      using False "1.IH" [OF False]
      by (subst decimal.simps)
        (simp add: readDigits_snoc isDigit_digitChar [OF d] digitVal_digitChar [OF d])
  qed
qed

lemma intLiteral_literal: "intLiteral (literal i) = Some (i < 0, nat \<bar>i\<bar>)"
proof (cases "i < 0")
  case True
  obtain d ds where d: "decimal (nat (- i)) = d # ds"
    using decimal_Cons by blast
  have "readDigits 0 (d # ds) = Some (nat (- i))"
    using readDigits_decimal [of "nat (- i)"] d by simp
  then show ?thesis using True
    by (simp add: literal_def intLiteral_def d del: readDigits.simps)
next
  case False
  obtain d ds where d: "decimal (nat i) = d # ds" and dd: "isDigit d"
    using decimal_Cons by blast
  have nd: "d \<noteq> CHR ''+''" "d \<noteq> CHR ''-''" using dd by (auto simp: isDigit_def)
  have "readDigits 0 (d # ds) = Some (nat i)"
    using readDigits_decimal [of "nat i"] d by simp
  then show ?thesis using False nd
    by (simp add: literal_def intLiteral_def d del: readDigits.simps)
qed

lemma ParseFloat_literal:
  "ParseFloat E (literal i) bits =
     (case roundToFloat (floatPrec bits) (floatEmax bits) (nat \<bar>i\<bar>) of
        None \<Rightarrow> Inl RangeError
      | Some m \<Rightarrow> Inr (VFloat (i < 0) (of_nat m)))"
  by (simp add: ParseFloat_def intLiteral_literal)

declare bitLength.simps [simp del]

lemma bitLength_bounds:
  "0 < n \<Longrightarrow> 2 ^ (bitLength n - 1) \<le> n \<and> n < 2 ^ bitLength n"
proof (induction n rule: bitLength.induct)
  case (1 n)
  show ?case
  proof (cases "n div 2 = 0")
    case True
    with "1.prems" have "n = Suc 0" by (simp add: div_eq_0_iff)
    then show ?thesis
      by (simp add: bitLength.simps [of "Suc 0"] bitLength.simps [of 0])
  next
    case False
    then have h: "0 < n div 2" by simp
    from "1.IH" [OF _ h] "1.prems"
    have b: "2 ^ (bitLength (n div 2) - 1) \<le> n div 2" "n div 2 < 2 ^ bitLength (n div 2)"
      by simp_all
    have pos: "0 < bitLength (n div 2)"
      using h by (subst bitLength.simps) simp
    have bl: "bitLength n = Suc (bitLength (n div 2))"
      using "1.prems" by (subst bitLength.simps) simp
    have lo: "2 ^ (bitLength n - 1) \<le> n"
    proof -
      have "(2::nat) ^ bitLength (n div 2) = 2 * 2 ^ (bitLength (n div 2) - 1)"
        using pos by (cases "bitLength (n div 2)") simp_all
      then show ?thesis using b(1) by (simp add: bl)
    qed
    have hi: "n < 2 ^ bitLength n"
      using b(2) by (simp add: bl)
    show ?thesis using lo hi by simp
  qed
qed

lemma bitLength_le: "n < 2 ^ a \<Longrightarrow> bitLength n \<le> a"
proof (cases "n = 0")
  case True
  then show ?thesis by (simp add: bitLength.simps [of 0])
next
  case False
  assume a: "n < 2 ^ a"
  from False have "2 ^ (bitLength n - 1) \<le> n" using bitLength_bounds by simp
  with a have "(2::nat) ^ (bitLength n - 1) < 2 ^ a" by (rule le_less_trans [rotated])
  then have "bitLength n - 1 < a" by (simp del: One_nat_def)
  then show ?thesis by simp
qed

lemma bitLength_gt: "2 ^ a \<le> n \<Longrightarrow> a < bitLength n"
proof -
  assume a: "2 ^ a \<le> n"
  then have "0 < n" by (metis less_le_trans zero_less_numeral zero_less_power)
  then have "n < 2 ^ bitLength n" using bitLength_bounds by simp
  with a have "(2::nat) ^ a < 2 ^ bitLength n" by (rule le_less_trans)
  then show ?thesis by simp
qed

lemma roundToFloat_exact:
  assumes "floatValue p emax n"
  shows "roundToFloat p emax n = Some n"
proof (cases "n < 2 ^ p")
  case True
  then show ?thesis by (simp add: roundToFloat_def)
next
  case False
  from assms obtain j where r: "n < 2 ^ (emax + 1)" and m: "2 ^ j dvd n"
    and q0: "n div 2 ^ j < 2 ^ p"
    by (auto simp: floatValue_def list_ex_iff)
  define q where "q = n div 2 ^ j"
  have q: "q < 2 ^ p" using q0 by (simp add: q_def)
  have n: "n = q * 2 ^ j" using m by (simp add: q_def)
  define k where "k = bitLength n - p"
  have "n < 2 ^ p * 2 ^ j" using q n by simp
  then have "n < 2 ^ (p + j)" by (simp add: power_add)
  then have "bitLength n \<le> p + j" by (rule bitLength_le)
  then have kj: "k \<le> j" by (simp add: k_def)
  have "p < bitLength n" using False by (intro bitLength_gt) simp
  then have k0: "0 < k" by (simp add: k_def)
  have "(2::nat) ^ j = 2 ^ k * 2 ^ (j - k)"
    using kj by (simp add: power_add [symmetric])
  then have dv: "n = (q * 2 ^ (j - k)) * 2 ^ k" using n by simp
  have md: "n mod 2 ^ k = 0" by (subst dv) simp
  have dd: "n div 2 ^ k * 2 ^ k = n" using md by (simp add: mod_0_imp_dvd)
  have hp: "0 < (2::nat) ^ (k - 1)" by simp
  show ?thesis
    using False r md dd hp
    by (simp add: roundToFloat_def Let_def k_def [symmetric])
qed

lemma roundToFloat_overflow:
  assumes "2 ^ (emax + 1) \<le> n" and "p \<le> emax + 1" and "0 < p"
  shows "roundToFloat p emax n = None"
proof -
  define l where "l = bitLength n"
  define k where "k = l - p"
  define q where "q = n div 2 ^ k"
  have el: "emax + 1 < l" using assms(1) unfolding l_def by (rule bitLength_gt)
  then have pl: "p < l" using assms(2) by simp
  have np: "\<not> n < 2 ^ p"
  proof -
    have "(2::nat) ^ p \<le> 2 ^ (emax + 1)" using assms(2) by (intro power_increasing) simp_all
    then show ?thesis using assms(1) by simp
  qed
  have n0: "0 < n" using np by (cases n) simp_all
  have lo: "2 ^ (l - 1) \<le> n" using bitLength_bounds [OF n0] by (simp add: l_def)
  have e: "(2::nat) ^ (l - 1) = 2 ^ (p - 1) * 2 ^ k"
    using pl assms(3) by (simp add: k_def power_add [symmetric])
  have "2 ^ (p - 1) \<le> q"
  proof -
    have "2 ^ (p - 1) * 2 ^ k div 2 ^ k \<le> n div 2 ^ k"
      using lo e by (intro div_le_mono) simp
    then show ?thesis by (simp add: q_def)
  qed
  then have ql: "2 ^ (l - 1) \<le> q * 2 ^ k"
    unfolding e by (rule mult_le_mono1)
  have "(2::nat) ^ (emax + 1) \<le> 2 ^ (l - 1)" using el by (intro power_increasing) simp_all
  then have m1: "2 ^ (emax + 1) \<le> q * 2 ^ k" using ql by simp
  then have m2: "2 ^ (emax + 1) \<le> (q + 1) * 2 ^ k" by (simp add: add_mult_distrib)
  show ?thesis
    using np m1 m2
    by (simp add: roundToFloat_def Let_def l_def [symmetric] k_def [symmetric] q_def [symmetric]
        del: power_Suc One_nat_def)
qed

lemma set_field_float:
  assumes "kind_of (destType sf) = k" and "basicKind k"
    and "unmarshalerOf E sf = None"
    and "funcMap (destType sf) = None"
    and "defaultBuiltInParsers E k = Some (floatParser E bits t0)"
    and "kind_of t0 = k"
  shows "set_field E old sf (literal i) funcMap =
      (case roundToFloat (floatPrec bits) (floatEmax bits) (nat \<bar>i\<bar>) of
         None \<Rightarrow> (allocated sf old, Some (ParseError sf RangeError))
       | Some m \<Rightarrow> (store sf (VFloat (i < 0) (of_nat m)), None))"
proof -
  have c: "Convert E (Dyn t0 x) (destType sf) = Some x" for x
    using assms by (intro Convert_same_kind) simp_all
  have "set_field E old sf (literal i) funcMap =
     (case floatParser E bits t0 (literal i) of
        Inl err \<Rightarrow> (allocated sf old, Some (ParseError sf err))
      | Inr val \<Rightarrow>
          (case Convert E val (destType sf) of
             None \<Rightarrow> (allocated sf old, Some Panic)
           | Some x \<Rightarrow> (store sf x, None)))"
    using assms by (intro set_field_numeric) simp_all
  then show ?thesis
    by (simp add: floatParser_def ParseFloat_literal c split: option.splits)
qed

lemma floatValue_small: "n < 2 ^ p \<Longrightarrow> p \<le> emax + 1 \<Longrightarrow> floatValue p emax n"
proof -
  assume a: "n < 2 ^ p" "p \<le> emax + 1"
  have "(2::nat) ^ p \<le> 2 ^ (emax + 1)" using a(2) by (intro power_increasing) simp_all
  then have "n < 2 ^ (emax + 1)" using a(1) by simp
  moreover have "\<exists>j\<in>set [0..<Suc (bitLength n)]. n mod 2 ^ j = 0 \<and> n div 2 ^ j < 2 ^ p"
    using a(1) by (intro bexI [of _ 0]) auto
  ultimately show ?thesis by (simp add: floatValue_def list_ex_iff)
qed

lemma float_params:
  "floatPrec 32 = 24" "floatEmax 32 = 127" "floatPrec 64 = 53" "floatEmax 64 = 1023"
  by (simp_all add: floatPrec_def floatEmax_def)

text \<open>
  C6, as amended. For a field whose destination type (the type itself, or the type
  pointed to) has a numeric kind, with no text unmarshaler and no custom parser for it,
  and the decimal literal of an integer \<open>i\<close>:
  for a signed or unsigned integer kind, when \<open>i\<close> is in the range of \<open>parserBits k\<close>
  bits the destination becomes \<open>i\<close>, otherwise \<open>set\<close> returns a parse error and the
  destination keeps its value (a nil pointer has got a zero pointee by then);
  \<open>parserBits\<close> is the width of the type for the sized kinds and 32 for \<open>int\<close> and
  \<open>uint\<close>. For a float kind the destination becomes the literal rounded to the
  precision of the width, which is the literal itself when it is a value of the width
  (at most 24 or 53 significant bits, below \<open>2 ^ 128\<close> or \<open>2 ^ 1024\<close>), and a literal of
  \<open>2 ^ 128\<close> (float32) or \<open>2 ^ 1024\<close> (float64) or more gives a parse error; for every
  text the error of \<open>strconv.ParseFloat\<close> becomes a parse error.
\<close>

theorem builtin_numeric_parse:
  assumes "kind_of (destType sf) = k"
    and "unmarshalerOf E sf = None"
    and "funcMap (destType sf) = None"
  shows "(signedKind k \<or> unsignedKind k \<longrightarrow>
            set_field E old sf (literal i) funcMap =
              (if fits (signedKind k) (parserBits k) i then (store sf (VInt i), None)
               else (allocated sf old, Some (ParseError sf
                      (if unsignedKind k \<and> i < 0 then SyntaxError else RangeError)))))
       \<and> (floatKind k \<longrightarrow>
            set_field E old sf (literal i) funcMap =
              (case roundToFloat (floatPrec (parserBits k)) (floatEmax (parserBits k)) (nat \<bar>i\<bar>) of
                 None \<Rightarrow> (allocated sf old, Some (ParseError sf RangeError))
               | Some m \<Rightarrow> (store sf (VFloat (i < 0) (of_nat m)), None)))
       \<and> (floatKind k \<and>
            floatValue (floatPrec (parserBits k)) (floatEmax (parserBits k)) (nat \<bar>i\<bar>) \<longrightarrow>
            set_field E old sf (literal i) funcMap =
              (store sf (VFloat (i < 0) (of_int \<bar>i\<bar>)), None))
       \<and> (floatKind k \<and> 2 ^ (floatEmax (parserBits k) + 1) \<le> \<bar>i\<bar> \<longrightarrow>
            set_field E old sf (literal i) funcMap =
              (allocated sf old, Some (ParseError sf RangeError)))
       \<and> (floatKind k \<longrightarrow>
            set_field E old sf str funcMap =
              (case ParseFloat E str (parserBits k) of
                 Inl e \<Rightarrow> (allocated sf old, Some (ParseError sf e))
               | Inr x \<Rightarrow> (store sf x, None)))"
proof -
  have ints: "set_field E old sf (literal i) funcMap =
              (if fits (signedKind k) (parserBits k) i then (store sf (VInt i), None)
               else (allocated sf old, Some (ParseError sf
                      (if unsignedKind k \<and> i < 0 then SyntaxError else RangeError))))"
    if "signedKind k \<or> unsignedKind k"
  proof -
    from that consider "k = KInt" | "k = KInt8" | "k = KInt16" | "k = KInt32" | "k = KInt64"
      | "k = KUint" | "k = KUint8" | "k = KUint16" | "k = KUint32" | "k = KUint64"
      by (auto simp: signedKind_def unsignedKind_def)
    then show ?thesis
    proof cases
      case 1
      then show ?thesis
        using assms set_field_int [where sf = sf and k = k and E = E and funcMap = funcMap
          and bits = 32 and ?t0.0 = "TPrim ''int'' KInt" and old = old and i = i]
        by (simp add: builtin_parsers parser_bits basicKind_def signedKind_def unsignedKind_def)
    next
      case 2
      then show ?thesis
        using assms set_field_int [where sf = sf and k = k and E = E and funcMap = funcMap
          and bits = 8 and ?t0.0 = "TPrim ''int8'' KInt8" and old = old and i = i]
        by (simp add: builtin_parsers parser_bits basicKind_def signedKind_def unsignedKind_def)
    next
      case 3
      then show ?thesis
        using assms set_field_int [where sf = sf and k = k and E = E and funcMap = funcMap
          and bits = 16 and ?t0.0 = "TPrim ''int16'' KInt16" and old = old and i = i]
        by (simp add: builtin_parsers parser_bits basicKind_def signedKind_def unsignedKind_def)
    next
      case 4
      then show ?thesis
        using assms set_field_int [where sf = sf and k = k and E = E and funcMap = funcMap
          and bits = 32 and ?t0.0 = "TPrim ''int32'' KInt32" and old = old and i = i]
        by (simp add: builtin_parsers parser_bits basicKind_def signedKind_def unsignedKind_def)
    next
      case 5
      then show ?thesis
        using assms set_field_int [where sf = sf and k = k and E = E and funcMap = funcMap
          and bits = 64 and ?t0.0 = "TPrim ''int64'' KInt64" and old = old and i = i]
        by (simp add: builtin_parsers parser_bits basicKind_def signedKind_def unsignedKind_def)
    next
      case 6
      then show ?thesis
        using assms set_field_uint [where sf = sf and k = k and E = E and funcMap = funcMap
          and bits = 32 and ?t0.0 = "TPrim ''uint'' KUint" and old = old and i = i]
        by (simp add: builtin_parsers parser_bits basicKind_def signedKind_def unsignedKind_def)
    next
      case 7
      then show ?thesis
        using assms set_field_uint [where sf = sf and k = k and E = E and funcMap = funcMap
          and bits = 8 and ?t0.0 = "TPrim ''uint8'' KUint8" and old = old and i = i]
        by (simp add: builtin_parsers parser_bits basicKind_def signedKind_def unsignedKind_def)
    next
      case 8
      then show ?thesis
        using assms set_field_uint [where sf = sf and k = k and E = E and funcMap = funcMap
          and bits = 16 and ?t0.0 = "TPrim ''uint16'' KUint16" and old = old and i = i]
        by (simp add: builtin_parsers parser_bits basicKind_def signedKind_def unsignedKind_def)
    next
      case 9
      then show ?thesis
        using assms set_field_uint [where sf = sf and k = k and E = E and funcMap = funcMap
          and bits = 32 and ?t0.0 = "TPrim ''uint32'' KUint32" and old = old and i = i]
        by (simp add: builtin_parsers parser_bits basicKind_def signedKind_def unsignedKind_def)
    next
      case 10
      then show ?thesis
        using assms set_field_uint [where sf = sf and k = k and E = E and funcMap = funcMap
          and bits = 64 and ?t0.0 = "TPrim ''uint64'' KUint64" and old = old and i = i]
        by (simp add: builtin_parsers parser_bits basicKind_def signedKind_def unsignedKind_def)
    qed
  qed
  have fk: "k = KFloat32 \<or> k = KFloat64" if "floatKind k"
    using that by (auto simp: floatKind_def)
  have fp: "defaultBuiltInParsers E k = Some (floatParser E (parserBits k) (TPrim (if k = KFloat32 then ''float32'' else ''float64'') k))"
    and bk: "basicKind k" if "floatKind k"
    using fk [OF that] by (auto simp: builtin_parsers parser_bits basicKind_def)
  have flt: "set_field E old sf (literal i) funcMap =
              (case roundToFloat (floatPrec (parserBits k)) (floatEmax (parserBits k)) (nat \<bar>i\<bar>) of
                 None \<Rightarrow> (allocated sf old, Some (ParseError sf RangeError))
               | Some m \<Rightarrow> (store sf (VFloat (i < 0) (of_nat m)), None))"
    if "floatKind k"
    using set_field_float [where sf = sf and k = k and E = E and funcMap = funcMap
          and bits = "parserBits k" and old = old and i = i
          and ?t0.0 = "TPrim (if k = KFloat32 then ''float32'' else ''float64'') k"]
      assms fp [OF that] bk [OF that]
    by simp
  have pe: "floatPrec (parserBits k) \<le> floatEmax (parserBits k) + 1" "0 < floatPrec (parserBits k)"
    by (simp_all add: floatPrec_def floatEmax_def)
  have exact: "set_field E old sf (literal i) funcMap =
              (store sf (VFloat (i < 0) (of_int \<bar>i\<bar>)), None)"
    if "floatKind k" "floatValue (floatPrec (parserBits k)) (floatEmax (parserBits k)) (nat \<bar>i\<bar>)"
    using flt [OF that(1)] roundToFloat_exact [OF that(2)] by simp
  have over: "set_field E old sf (literal i) funcMap =
              (allocated sf old, Some (ParseError sf RangeError))"
    if "floatKind k" "2 ^ (floatEmax (parserBits k) + 1) \<le> \<bar>i\<bar>"
  proof -
    have "(2::nat) ^ (floatEmax (parserBits k) + 1) \<le> nat \<bar>i\<bar>"
      using that(2) by (simp add: le_nat_iff)
    then have "roundToFloat (floatPrec (parserBits k)) (floatEmax (parserBits k)) (nat \<bar>i\<bar>) = None"
      using pe by (intro roundToFloat_overflow)
    then show ?thesis using flt [OF that(1)] by simp
  qed
  have gen: "set_field E old sf str funcMap =
              (case ParseFloat E str (parserBits k) of
                 Inl e \<Rightarrow> (allocated sf old, Some (ParseError sf e))
               | Inr x \<Rightarrow> (store sf x, None))"
    if "floatKind k"
  proof -
    define t0 where "t0 = TPrim (if k = KFloat32 then ''float32'' else ''float64'') k"
    have kt: "kind_of t0 = k" by (simp add: t0_def)
    have c: "Convert E (Dyn t0 x) (destType sf) = Some x" for x
      using assms(1) bk [OF that] kt by (intro Convert_same_kind) simp_all
    have p: "defaultBuiltInParsers E k = Some (floatParser E (parserBits k) t0)"
      using fp [OF that] by (simp only: t0_def)
    have "set_field E old sf str funcMap =
     (case floatParser E (parserBits k) t0 str of
        Inl err \<Rightarrow> (allocated sf old, Some (ParseError sf err))
      | Inr val \<Rightarrow>
          (case Convert E val (destType sf) of
             None \<Rightarrow> (allocated sf old, Some Panic)
           | Some x \<Rightarrow> (store sf x, None)))"
      using set_field_numeric [where sf = sf and k = k and E = E and funcMap = funcMap
          and parserFunc = "floatParser E (parserBits k) t0" and old = old and str = str]
        assms p bk [OF that]
      by simp
    then show ?thesis
      by (cases "ParseFloat E str (parserBits k)") (simp_all add: floatParser_def c)
  qed
  show ?thesis
    using ints flt exact over gen by blast
qed

theorem builtin_numeric_parse_witness:
  "kind_of (destType int8Field) = KInt8
   \<and> unmarshalerOf exampleEnv int8Field = None
   \<and> kind_of (destType ptrInt8Field) = KInt8
   \<and> unmarshalerOf exampleEnv ptrInt8Field = None
   \<and> kind_of (destType float32Field) = KFloat32
   \<and> unmarshalerOf exampleEnv float32Field = None
   \<and> set_field exampleEnv (VInt 0) int8Field (literal 127) Map.empty = (VInt 127, None)
   \<and> set_field exampleEnv (VInt 0) int8Field (literal 128) Map.empty
       = (VInt 0, Some (ParseError int8Field RangeError))
   \<and> set_field exampleEnv VNil ptrInt8Field (literal (- 128)) Map.empty = (VPtr (VInt (- 128)), None)
   \<and> set_field exampleEnv VNil ptrInt8Field (literal 128) Map.empty
       = (VPtr (VInt 0), Some (ParseError ptrInt8Field RangeError))
   \<and> set_field exampleEnv (VFloat False 0) float32Field (literal (- 3)) Map.empty
       = (VFloat True 3, None)
   \<and> set_field exampleEnv (VFloat False 0) float32Field (literal 16777217) Map.empty
       = (VFloat False 16777216, None)
   \<and> set_field exampleEnv (VFloat False 0) float32Field (literal (2 ^ 128)) Map.empty
       = (VFloat False 0, Some (ParseError float32Field RangeError))"
proof -
  have a: "kind_of (destType int8Field) = KInt8" "unmarshalerOf exampleEnv int8Field = None"
    "Map.empty (destType int8Field) = (None :: ParserFunc option)"
    by (simp_all add: int8Field_def destType_def unmarshalerOf_def exampleEnv_def)
  have b: "kind_of (destType ptrInt8Field) = KInt8" "unmarshalerOf exampleEnv ptrInt8Field = None"
    "Map.empty (destType ptrInt8Field) = (None :: ParserFunc option)"
    by (simp_all add: ptrInt8Field_def destType_def unmarshalerOf_def exampleEnv_def)
  have c: "kind_of (destType float32Field) = KFloat32" "unmarshalerOf exampleEnv float32Field = None"
    "Map.empty (destType float32Field) = (None :: ParserFunc option)"
    by (simp_all add: float32Field_def destType_def unmarshalerOf_def exampleEnv_def)
  have k: "signedKind KInt8" "\<not> unsignedKind KInt8" "floatKind KFloat32"
    by (simp_all add: signedKind_def unsignedKind_def floatKind_def)
  have sa: "store int8Field x = x" "allocated int8Field x = x" for x
    by (simp_all add: store_def allocated_def int8Field_def)
  have sb: "store ptrInt8Field x = VPtr x" "allocated ptrInt8Field VNil = VPtr (VInt 0)" for x
    by (simp_all add: store_def allocated_def ptrInt8Field_def zeroPrim_def)
  have sc: "store float32Field x = x" "allocated float32Field x = x" for x
    by (simp_all add: store_def allocated_def float32Field_def)
  have fv: "floatValue (floatPrec (parserBits KFloat32)) (floatEmax (parserBits KFloat32)) (nat \<bar>- 3\<bar>)"
    by (intro floatValue_small) (simp_all add: parser_bits float_params)
  have r: "roundToFloat 24 127 16777217 = Some 16777216"
    by (simp add: roundToFloat_def bitLength.simps Let_def)
  have i1: "set_field exampleEnv (VInt 0) int8Field (literal 127) Map.empty = (VInt 127, None)"
    using conjunct1 [OF builtin_numeric_parse [OF a, where old = "VInt 0" and i = 127]] k
    by (simp add: parser_bits fits_def sa)
  have i2: "set_field exampleEnv (VInt 0) int8Field (literal 128) Map.empty
       = (VInt 0, Some (ParseError int8Field RangeError))"
    using conjunct1 [OF builtin_numeric_parse [OF a, where old = "VInt 0" and i = 128]] k
    by (simp add: parser_bits fits_def sa)
  have p1: "set_field exampleEnv VNil ptrInt8Field (literal (- 128)) Map.empty = (VPtr (VInt (- 128)), None)"
    using conjunct1 [OF builtin_numeric_parse [OF b, where old = VNil and i = "- 128"]] k
    by (simp add: parser_bits fits_def sb)
  have p2: "set_field exampleEnv VNil ptrInt8Field (literal 128) Map.empty
       = (VPtr (VInt 0), Some (ParseError ptrInt8Field RangeError))"
    using conjunct1 [OF builtin_numeric_parse [OF b, where old = VNil and i = 128]] k
    by (simp add: parser_bits fits_def sb)
  note f = builtin_numeric_parse [OF c, where old = "VFloat False 0"]
  have f1: "set_field exampleEnv (VFloat False 0) float32Field (literal (- 3)) Map.empty
       = (VFloat True 3, None)"
    using conjunct1 [OF conjunct2 [OF conjunct2 [OF f [where i = "- 3"]]]] k fv
    by (simp add: sc)
  have f2: "set_field exampleEnv (VFloat False 0) float32Field (literal 16777217) Map.empty
       = (VFloat False 16777216, None)"
    using conjunct1 [OF conjunct2 [OF f [where i = 16777217]]] k
    by (simp add: sc parser_bits float_params r)
  have f3: "set_field exampleEnv (VFloat False 0) float32Field (literal (2 ^ 128)) Map.empty
       = (VFloat False 0, Some (ParseError float32Field RangeError))"
    using conjunct1 [OF conjunct2 [OF conjunct2 [OF conjunct2 [OF f [where i = "2 ^ 128"]]]]] k
    by (simp add: sc parser_bits float_params)
  show ?thesis
    using a(1,2) b(1,2) c(1,2) i1 i2 p1 p2 f1 f2 f3 by simp
qed

text \<open>
  C6, as stated, fails for \<open>int\<close> where \<open>int\<close> has 64 bits: 2147483648 is in the range
  of the type, and the built-in parser, which asks for 32 bits, rejects it.
\<close>

theorem int_field_rejects_in_range_literal:
  "fits True (typeBits 64 KInt) 2147483648
   \<and> set_field exampleEnv (VInt 0) intField ''2147483648'' Map.empty
       = (VInt 0, Some (ParseError intField RangeError))"
  by (simp add: fits_def typeBits_def intField_def intT_def walk_simps exampleEnv_def)

end
